theory Spec2Isabelle
  imports Complex_Main "HOL-Library.Word" "HOL-Library.AList" "HOL-Library.Multiset"
begin

section \<open>Conventions of the model\<close>

text \<open>
  The development embeds the accounting core of the backtesting framework: the order and
  position records of package \<^verbatim>\<open>portfolio\<close>, the portfolio itself, the exit scan of
  package \<^verbatim>\<open>risk\<close> and the tick loop of package \<^verbatim>\<open>runner\<close>.

  \<^item> Go's \<^verbatim>\<open>int\<close> is the 64-bit two's complement integer of the usual targets: a
    \<open>64 word\<close>, read with \<open>sint\<close>; \<open>+\<close> and \<open>-\<close> wrap around as Go's do.
  \<^item> A \<^verbatim>\<open>float64\<close> is a real number; there is no infinity and no NaN. Rounding is
    written out where a statement depends on it, which is the running average of the
    entry price in \<^verbatim>\<open>AddOrder\<close>: there every operation rounds its exact result with
    \<open>round64\<close>. Elsewhere the operations are exact, as they are in \<^verbatim>\<open>float64\<close> on the
    values on which they are evaluated below, and the conditions that the statements give
    are the expressions of the source. Where the source divides by a float that is zero
    the model has HOL's \<open>x / 0 = 0\<close>; no statement below depends on such a quotient.
  \<^item> Readings of the wall clock (\<^verbatim>\<open>time.Now()\<close>), and the fields that only store them
    (the identifiers \<^verbatim>\<open>ID\<close>, \<^verbatim>\<open>OpenTime\<close>, \<^verbatim>\<open>CloseTime\<close>, \<^verbatim>\<open>FilledAt\<close>), are left out
    of the records: no function of the core reads them back.
  \<^item> A method that mutates its receiver and returns an \<^verbatim>\<open>error\<close> becomes a function
    returning the pair of the error (\<open>None\<close> for \<^verbatim>\<open>nil\<close>) and the receiver afterwards, so
    that what a failing call leaves behind is part of the model.
  \<^item> The map \<^verbatim>\<open>openPositions\<close> is an association list read with \<open>map_of\<close> and written
    with \<open>AList.update\<close> and \<open>AList.delete\<close>; a \<^verbatim>\<open>range\<close> loop walks it in list order,
    one of the orders Go may choose. A list stands for a Go map when its keys are
    distinct, which the statements about loops assume and the portfolio's own functions
    maintain.
  \<^item> \<^verbatim>\<open>OrderSide\<close>, \<^verbatim>\<open>OrderType\<close> and \<^verbatim>\<open>PositionStatus\<close> are the datatypes of their
    declared constants.
\<close>

section \<open>Orders (\<^verbatim>\<open>pkg/portfolio/order.go\<close>)\<close>

datatype OrderSide = Long | Short

datatype OrderType = Entry | Exit

fun Opposite :: "OrderSide \<Rightarrow> OrderSide" where
  "Opposite Long = Short"
| "Opposite Short = Long"

record Order =
  Instrument :: string
  Side :: OrderSide
  Type :: OrderType
  Quantity :: "64 word"
  Price :: real
  Leverage :: real

text \<open>The zero value of the struct: what \<^verbatim>\<open>make([]Order, 1)\<close> fills its slot with.\<close>

definition zero_Order :: Order where
  "zero_Order = \<lparr>Instrument = [], Side = Long, Type = Entry, Quantity = 0, Price = 0, Leverage = 0\<rparr>"

definition NewOrder :: "string \<Rightarrow> OrderSide \<Rightarrow> OrderType \<Rightarrow> 64 word \<Rightarrow> real \<Rightarrow> Order" where
  "NewOrder instrument side orderType qty leverage =
     \<lparr>Instrument = instrument, Side = side, Type = orderType, Quantity = qty, Price = 0,
      Leverage = (if leverage \<le> 0 then 1 else leverage)\<rparr>"

definition Fill :: "Order \<Rightarrow> real \<Rightarrow> Order" where
  "Fill o1 price = o1\<lparr>Price := price\<rparr>"

section \<open>Positions (\<^verbatim>\<open>pkg/portfolio/position.go\<close>)\<close>

datatype PositionStatus = Open | Closed | PartiallyOpen

record Position =
  PosInstrument :: string
  PosSide :: OrderSide
  PosQuantity :: "64 word"
  OpenPrice :: real
  ClosePrice :: real
  Status :: PositionStatus
  Orders :: "Order list"
  PosLeverage :: real
  StopLoss :: real
  TakeProfit :: real
  MaxDrawdown :: real
  HighestPrice :: real
  LowestPrice :: real
  UnrealizedPnL :: real
  RealizedPnL :: real
  TrailingStopHigh :: real

text \<open>
  One constructor for each \<^verbatim>\<open>fmt.Errorf\<close> of the packages modelled, the wrapping ones
  (\<^verbatim>\<open>%w\<close>) with the error they wrap, and \<open>NilDereference\<close> for the run-time panic of a
  method call on a component that is \<^verbatim>\<open>nil\<close>.
\<close>

datatype error =
    NonEntryOrder
  | InvalidQuantity
  | InstrumentMismatch
  | ExitExceedsPosition
  | ShortsNotAllowed
  | InsufficientCash
  | NoOpenPosition
  | ExitExceedsSize
  | NoPositionFound
  | PositionSizeExceeded
  | LeverageExceeded
  | StrategyNotSet
  | PortfolioNotSet
  | RiskManagerNotSet
  | DataNotSet
  | InitializationFailed error
  | DataError
  | RiskValidationFailed error
  | OrderProcessingFailed error
  | ProcessingError error
  | NilDereference

text \<open>
  The float of a Go int, \<^verbatim>\<open>float64(q)\<close>: the integer itself, which is what the conversion
  yields for every integer of magnitude up to \<open>2\<^sup>5\<^sup>3\<close>.
\<close>

definition float64 :: "64 word \<Rightarrow> real" where
  "float64 q = real_of_int (sint q)"

text \<open>
  The result of a \<^verbatim>\<open>float64\<close> operation is its exact result rounded to the nearest
  number with a significand of 53 bits, a tie going to the even significand
  (IEEE 754 binary64, round to nearest even). \<open>round64\<close> does this for a real of any
  magnitude: the exponent is not bounded, so there is no overflow to infinity and no
  gradual underflow. The exact result \<open>x\<close> with \<open>2\<^sup>e \<le> \<bar>x\<bar> < 2\<^sup>e\<^sup>+\<^sup>1\<close> is
  rounded to a multiple of \<open>2\<^sup>e\<^sup>-\<^sup>5\<^sup>2\<close>.
\<close>

definition roundTiesToEven :: "real \<Rightarrow> int" where
  "roundTiesToEven y =
     (let f = \<lfloor>y\<rfloor>
      in if y - of_int f < 1 / 2 then f
         else if 1 / 2 < y - of_int f then f + 1
         else if even f then f else f + 1)"

definition round64 :: "real \<Rightarrow> real" where
  "round64 x =
     (if x = 0 then 0
      else let e = \<lfloor>log 2 \<bar>x\<bar>\<rfloor>
           in of_int (roundTiesToEven (x / 2 powr (of_int e - 52))) * 2 powr (of_int e - 52))"

definition NewPosition :: "Order \<Rightarrow> error + Position" where
  "NewPosition ord0 =
     (if Type ord0 \<noteq> Entry then Inl NonEntryOrder
      else if sint (Quantity ord0) \<le> 0 then Inl InvalidQuantity
      else
        let ord1 = (if Leverage ord0 \<le> 1 then ord0\<lparr>Leverage := 1\<rparr> else ord0);
            pos = \<lparr>PosInstrument = Instrument ord1,
                   PosSide = Side ord1,
                   PosQuantity = Quantity ord1,
                   OpenPrice = Price ord1,
                   ClosePrice = 0,
                   Status = Open,
                   Orders = replicate 1 zero_Order,
                   PosLeverage = Leverage ord1,
                   StopLoss = 0,
                   TakeProfit = 0,
                   MaxDrawdown = 0,
                   HighestPrice = 0,
                   LowestPrice = 0,
                   UnrealizedPnL = 0,
                   RealizedPnL = 0,
                   TrailingStopHigh = Price ord1\<rparr>
        in Inr (pos\<lparr>Orders := Orders pos @ [ord1]\<rparr>))"

text \<open>
  In the entry branch the two products, their sum and the quotient each round; a target
  on which the compiler fuses a product with the sum rounds once less. The conversions of
  the quantities are those of \<open>float64\<close> above, exact for quantities up to \<open>2\<^sup>5\<^sup>3\<close>.
\<close>

definition AddOrder :: "Position \<Rightarrow> Order \<Rightarrow> error option \<times> Position" where
  "AddOrder pos ord1 =
     (if Instrument ord1 \<noteq> PosInstrument pos then (Some InstrumentMismatch, pos)
      else if sint (Quantity ord1) \<le> 0 then (Some InvalidQuantity, pos)
      else case Type ord1 of
        Entry \<Rightarrow>
          let totalValue = round64 (round64 (OpenPrice pos * float64 (PosQuantity pos))
                                    + round64 (Price ord1 * float64 (Quantity ord1)));
              newQuantity = PosQuantity pos + Quantity ord1;
              pos1 = pos\<lparr>OpenPrice := round64 (totalValue / float64 newQuantity),
                         PosQuantity := newQuantity\<rparr>
          in (None, pos1\<lparr>Orders := Orders pos1 @ [ord1]\<rparr>)
      | Exit \<Rightarrow>
          if sint (Quantity ord1) > sint (PosQuantity pos) then (Some ExitExceedsPosition, pos)
          else
            let pos1 = pos\<lparr>PosQuantity := PosQuantity pos - Quantity ord1\<rparr>;
                pos2 = (if PosQuantity pos1 = 0
                        then pos1\<lparr>Status := Closed, ClosePrice := Price ord1\<rparr>
                        else pos1\<lparr>Status := PartiallyOpen\<rparr>);
                pos3 = (if PosSide pos2 = Long
                        then pos2\<lparr>RealizedPnL := RealizedPnL pos2
                                  + float64 (Quantity ord1) * (Price ord1 - OpenPrice pos2) * PosLeverage pos2\<rparr>
                        else pos2\<lparr>RealizedPnL := RealizedPnL pos2
                                  + float64 (Quantity ord1) * (OpenPrice pos2 - Price ord1) * PosLeverage pos2\<rparr>)
            in (None, pos3\<lparr>Orders := Orders pos3 @ [ord1]\<rparr>))"

definition Position_Value :: "Position \<Rightarrow> real \<Rightarrow> real" where
  "Position_Value pos currentPrice = float64 (PosQuantity pos) * currentPrice * PosLeverage pos"

definition UpdatePrice :: "Position \<Rightarrow> real \<Rightarrow> Position" where
  "UpdatePrice pos currentPrice =
     (let pos1 = (if currentPrice > HighestPrice pos then pos\<lparr>HighestPrice := currentPrice\<rparr> else pos);
          pos2 = (if currentPrice < LowestPrice pos1 \<or> LowestPrice pos1 = 0
                  then pos1\<lparr>LowestPrice := currentPrice\<rparr> else pos1);
          pos3 = (if PosSide pos2 = Long
                  then pos2\<lparr>UnrealizedPnL := float64 (PosQuantity pos2) * (currentPrice - OpenPrice pos2) * PosLeverage pos2\<rparr>
                  else pos2\<lparr>UnrealizedPnL := float64 (PosQuantity pos2) * (OpenPrice pos2 - currentPrice) * PosLeverage pos2\<rparr>)
      in if PosSide pos3 = Long
         then (let drawdown = (HighestPrice pos3 - currentPrice) / HighestPrice pos3
               in if drawdown > MaxDrawdown pos3 then pos3\<lparr>MaxDrawdown := drawdown\<rparr> else pos3)
         else (let drawdown = (currentPrice - LowestPrice pos3) / LowestPrice pos3
               in if drawdown > MaxDrawdown pos3 then pos3\<lparr>MaxDrawdown := drawdown\<rparr> else pos3))"

text \<open>
  A caller that feeds a position a list of orders one after the other and goes on after
  a rejected one; the second component counts the orders that were accepted.
\<close>

fun AddOrders :: "Position \<Rightarrow> Order list \<Rightarrow> Position \<times> nat" where
  "AddOrders pos [] = (pos, 0)"
| "AddOrders pos (ord1 # rest) =
     (case AddOrder pos ord1 of
        (None, pos') \<Rightarrow> (case AddOrders pos' rest of (pos'', n) \<Rightarrow> (pos'', Suc n))
      | (Some e, pos') \<Rightarrow> AddOrders pos' rest)"

section \<open>The portfolio (\<^verbatim>\<open>pkg/portfolio/portfolio.go\<close>)\<close>

text \<open>Of the settings, the three fields that the functions below read.\<close>

record Settings =
  InitialCapital :: real
  EnableShorts :: bool
  DefaultLeverage :: real

record Portfolio =
  cash :: real
  openPositions :: "(string \<times> Position) list"
  closedPositions :: "Position list"
  orderHistory :: "Order list"
  settings :: Settings

definition Portfolio_New :: "Settings \<Rightarrow> Portfolio" where
  "Portfolio_New s =
     \<lparr>cash = InitialCapital s, openPositions = [], closedPositions = [], orderHistory = [], settings = s\<rparr>"

definition validateOrder :: "Portfolio \<Rightarrow> Order \<Rightarrow> error option" where
  "validateOrder p ord1 =
     (case Type ord1 of
        Entry \<Rightarrow>
          if \<not> EnableShorts (settings p) \<and> Side ord1 = Short then Some ShortsNotAllowed
          else
            let requiredCash0 = float64 (Quantity ord1) * Price ord1;
                requiredCash =
                  (if Side ord1 = Long \<and> DefaultLeverage (settings p) > 0 \<and> Leverage ord1 > 0
                   then requiredCash0 / Leverage ord1
                   else if Side ord1 = Long \<and> DefaultLeverage (settings p) > 0
                   then requiredCash0 / DefaultLeverage (settings p)
                   else requiredCash0)
            in if requiredCash > cash p then Some InsufficientCash else None
      | Exit \<Rightarrow>
          (case map_of (openPositions p) (Instrument ord1) of
             None \<Rightarrow> Some NoOpenPosition
           | Some pos \<Rightarrow>
               if sint (Quantity ord1) > sint (PosQuantity pos) then Some ExitExceedsSize else None))"

text \<open>
  The positions are held by pointer: \<^verbatim>\<open>pos.AddOrder(ord)\<close> changes the position that the
  map holds, also when it returns an error, so the model writes the position back under
  its key in both cases.
\<close>

definition handleEntryOrder :: "Portfolio \<Rightarrow> Order \<Rightarrow> error option \<times> Portfolio" where
  "handleEntryOrder p ord1 =
     (let placed =
            (case map_of (openPositions p) (Instrument ord1) of
               None \<Rightarrow>
                 (case NewPosition ord1 of
                    Inl e \<Rightarrow> (Some e, p)
                  | Inr newPos \<Rightarrow>
                      (None, p\<lparr>openPositions := AList.update (Instrument ord1) newPos (openPositions p)\<rparr>))
             | Some pos \<Rightarrow>
                 (case AddOrder pos ord1 of
                    (err, pos') \<Rightarrow>
                      (err, p\<lparr>openPositions := AList.update (Instrument ord1) pos' (openPositions p)\<rparr>)))
      in case placed of
           (Some e, p1) \<Rightarrow> (Some e, p1)
         | (None, p1) \<Rightarrow>
             let cost0 = float64 (Quantity ord1) * Price ord1;
                 cost = (if DefaultLeverage (settings p1) > 1 \<and> Side ord1 = Long
                         then cost0 / DefaultLeverage (settings p1) else cost0)
             in (None, p1\<lparr>cash := cash p1 - cost, orderHistory := orderHistory p1 @ [ord1]\<rparr>))"

definition handleExitOrder :: "Portfolio \<Rightarrow> Order \<Rightarrow> error option \<times> Portfolio" where
  "handleExitOrder p ord1 =
     (case map_of (openPositions p) (Instrument ord1) of
        None \<Rightarrow> (Some NoPositionFound, p)
      | Some pos \<Rightarrow>
          (case AddOrder pos ord1 of
             (Some e, pos') \<Rightarrow>
               (Some e, p\<lparr>openPositions := AList.update (Instrument ord1) pos' (openPositions p)\<rparr>)
           | (None, pos') \<Rightarrow>
               let p1 = p\<lparr>openPositions := AList.update (Instrument ord1) pos' (openPositions p)\<rparr>;
                   proceeds = float64 (Quantity ord1) * Price ord1;
                   p2 = p1\<lparr>cash := cash p1 + proceeds\<rparr>;
                   p3 = (if Status pos' = Closed
                         then p2\<lparr>closedPositions := closedPositions p2 @ [pos'],
                                 openPositions := AList.delete (Instrument ord1) (openPositions p2)\<rparr>
                         else p2)
               in (None, p3\<lparr>orderHistory := orderHistory p3 @ [ord1]\<rparr>)))"

text \<open>
  \<^verbatim>\<open>OrderType\<close> has the two values \<^verbatim>\<open>Entry\<close> and \<^verbatim>\<open>Exit\<close>; the \<^verbatim>\<open>default\<close> branch of
  the switch, for an integer that is neither, has no counterpart in the datatype.
\<close>

definition ProcessOrder :: "Portfolio \<Rightarrow> Order \<Rightarrow> error option \<times> Portfolio" where
  "ProcessOrder p ord1 =
     (case validateOrder p ord1 of
        Some e \<Rightarrow> (Some e, p)
      | None \<Rightarrow>
          (case Type ord1 of
             Entry \<Rightarrow> handleEntryOrder p ord1
           | Exit \<Rightarrow> handleExitOrder p ord1))"

definition updatePosition :: "Position \<Rightarrow> real \<Rightarrow> Position" where
  "updatePosition pos currentPrice = UpdatePrice pos currentPrice"

definition UpdatePositions :: "Portfolio \<Rightarrow> (string \<rightharpoonup> real) \<Rightarrow> Portfolio" where
  "UpdatePositions p prices =
     p\<lparr>openPositions :=
         map (\<lambda>(instrument, pos).
                case prices instrument of
                  Some price \<Rightarrow> (instrument, updatePosition pos price)
                | None \<Rightarrow> (instrument, pos))
             (openPositions p)\<rparr>"

definition Portfolio_Value :: "Portfolio \<Rightarrow> real" where
  "Portfolio_Value p = foldl (\<lambda>v (instrument, pos). v + UnrealizedPnL pos) (cash p) (openPositions p)"

definition Cash :: "Portfolio \<Rightarrow> real" where
  "Cash p = cash p"

definition Positions :: "Portfolio \<Rightarrow> (string \<times> Position) list" where
  "Positions p = openPositions p"

section \<open>The risk manager (\<^verbatim>\<open>pkg/risk\<close>)\<close>

text \<open>
  The settings as the functions below read them: the two limits on an order that
  \<^verbatim>\<open>ValidateOrder\<close> checks, and a switch and a rate for each of the three exit rules, under
  the names by which \<^verbatim>\<open>exit_conditions.go\<close> selects them (\<^verbatim>\<open>UseStopLoss\<close>,
  \<^verbatim>\<open>DefaultStopLoss\<close> and so on; the struct of \<^verbatim>\<open>manager.go\<close> calls the same six fields
  \<^verbatim>\<open>EnableStopLoss\<close>, \<^verbatim>\<open>DefaultStopLossRate\<close> and so on).
\<close>

record RiskSettings =
  MaxLeverage :: real
  MaxPositionAllocationRate :: real
  UseStopLoss :: bool
  DefaultStopLoss :: real
  UseTakeProfit :: bool
  DefaultTakeProfit :: real
  UseTrailingStop :: bool
  DefaultTrailingStop :: real

definition ValidateOrder :: "RiskSettings \<Rightarrow> Portfolio \<Rightarrow> Order \<Rightarrow> error option" where
  "ValidateOrder m p ord1 =
     (let positionValue = float64 (Quantity ord1) * Price ord1;
          portfolioValue = Portfolio_Value p
      in if MaxPositionAllocationRate m > 0
            \<and> positionValue > portfolioValue * MaxPositionAllocationRate m
         then Some PositionSizeExceeded
         else if Leverage ord1 > MaxLeverage m \<and> MaxLeverage m > 0 then Some LeverageExceeded
         else None)"

text \<open>
  The exit checks return the verdict with its reason, and the position, whose trailing
  anchor they may have raised (lowered, for a short) through the pointer.
\<close>

definition checkLongExitConditions :: "RiskSettings \<Rightarrow> Position \<Rightarrow> real \<Rightarrow> (bool \<times> string) \<times> Position" where
  "checkLongExitConditions m pos currentPrice =
     (if UseStopLoss m \<and> currentPrice \<le> OpenPrice pos * (1 - DefaultStopLoss m)
      then ((True, ''stop_loss''), pos)
      else if UseTakeProfit m \<and> currentPrice \<ge> OpenPrice pos * (1 + DefaultTakeProfit m)
      then ((True, ''take_profit''), pos)
      else if UseTrailingStop m
      then
        let pos1 = (if currentPrice > TrailingStopHigh pos
                    then pos\<lparr>TrailingStopHigh := currentPrice\<rparr> else pos);
            stopPrice = TrailingStopHigh pos1 * (1 - DefaultTrailingStop m)
        in if currentPrice \<le> stopPrice then ((True, ''trailing_stop''), pos1)
           else ((False, []), pos1)
      else ((False, []), pos))"

definition checkShortExitConditions :: "RiskSettings \<Rightarrow> Position \<Rightarrow> real \<Rightarrow> (bool \<times> string) \<times> Position" where
  "checkShortExitConditions m pos currentPrice =
     (if UseStopLoss m \<and> currentPrice \<ge> OpenPrice pos * (1 + DefaultStopLoss m)
      then ((True, ''stop_loss''), pos)
      else if UseTakeProfit m \<and> currentPrice \<le> OpenPrice pos * (1 - DefaultTakeProfit m)
      then ((True, ''take_profit''), pos)
      else if UseTrailingStop m
      then
        let pos1 = (if currentPrice < TrailingStopHigh pos
                    then pos\<lparr>TrailingStopHigh := currentPrice\<rparr> else pos);
            stopPrice = TrailingStopHigh pos1 * (1 + DefaultTrailingStop m)
        in if currentPrice \<ge> stopPrice then ((True, ''trailing_stop''), pos1)
           else ((False, []), pos1)
      else ((False, []), pos))"

definition checkExitConditions :: "RiskSettings \<Rightarrow> Position \<Rightarrow> real \<Rightarrow> (bool \<times> string) \<times> Position" where
  "checkExitConditions m pos currentPrice =
     (if \<not> UseStopLoss m \<and> \<not> UseTakeProfit m \<and> \<not> UseTrailingStop m then ((False, []), pos)
      else if PosSide pos = Long then checkLongExitConditions m pos currentPrice
      else checkShortExitConditions m pos currentPrice)"

text \<open>
  The loop of \<^verbatim>\<open>CheckPositionExits\<close> over the open positions: the exit orders collected
  so far are the accumulator, and the positions come back as the checks left them.
\<close>

fun scanPositions ::
  "RiskSettings \<Rightarrow> (string \<rightharpoonup> real) \<Rightarrow> (string \<times> Position) list \<Rightarrow> Order list
     \<Rightarrow> Order list \<times> (string \<times> Position) list" where
  "scanPositions m prices [] exitOrders = (exitOrders, [])"
| "scanPositions m prices ((instrument, pos) # rest) exitOrders =
     (case prices (PosInstrument pos) of
        None \<Rightarrow>
          (case scanPositions m prices rest exitOrders of
             (orders, rest') \<Rightarrow> (orders, (instrument, pos) # rest'))
      | Some currentPrice \<Rightarrow>
          (case checkExitConditions m pos currentPrice of
             ((shouldExit, reason), pos') \<Rightarrow>
               (case scanPositions m prices rest
                       (if shouldExit
                        then exitOrders @
                               [\<lparr>Instrument = PosInstrument pos', Side = Opposite (PosSide pos'),
                                 Type = Exit, Quantity = PosQuantity pos', Price = currentPrice,
                                 Leverage = 0\<rparr>]
                        else exitOrders) of
                  (orders, rest') \<Rightarrow> (orders, (instrument, pos') # rest'))))"

definition CheckPositionExits :: "RiskSettings \<Rightarrow> Portfolio \<Rightarrow> (string \<rightharpoonup> real) \<Rightarrow> Order list \<times> Portfolio" where
  "CheckPositionExits m p prices =
     (case scanPositions m prices (Positions p) [] of
        (exitOrders, positions') \<Rightarrow> (exitOrders, p\<lparr>openPositions := positions'\<rparr>))"

section \<open>The runner (\<^verbatim>\<open>pkg/runner/runner.go\<close>)\<close>

type_synonym Time = int

text \<open>A candle, without the indicator values attached to it, which the runner never reads.\<close>

record Candle =
  CandleTime :: Time
  CandleOpen :: real
  CandleHigh :: real
  CandleLow :: real
  CandleClose :: real
  CandleVolume :: "64 word"

record AccountValue =
  avTime :: Time
  avValue :: real
  avCash :: real
  avOpenPositions :: int
  avUnrealizedPnL :: real

text \<open>
  A row of the table as \<^verbatim>\<open>Rows()\<close> returns it, in increasing time: its timestamp and what
  \<^verbatim>\<open>row.Get()\<close> yields (\<open>None\<close> when \<^verbatim>\<open>ok\<close> is false).
\<close>

record TimeseriesRow =
  Timestamp :: Time
  Get :: "(string \<rightharpoonup> Candle) option"

text \<open>
  The strategy is an interface: its two callbacks that the runner invokes are functions
  of the strategy's own state, which they may change, and of the portfolio, which the
  strategy reads through the handle it got from \<^verbatim>\<open>SetPortfolio\<close>. The portfolio and the
  risk manager are the implementations of packages \<^verbatim>\<open>portfolio\<close> and \<^verbatim>\<open>risk\<close>.
\<close>

record 's Strategy =
  strategyState :: 's
  OnTick :: "'s \<Rightarrow> Portfolio \<Rightarrow> (string \<rightharpoonup> Candle) \<Rightarrow> Order list \<times> 's"
  OnOrderFilled :: "'s \<Rightarrow> Portfolio \<Rightarrow> Order \<Rightarrow> 's"

record 's Runner =
  Strategy :: "'s Strategy option"
  Portfolio :: "Portfolio option"
  RiskManager :: "RiskSettings option"
  Data :: "TimeseriesRow list option"
  CurrentTime :: Time
  EquityCurve :: "AccountValue list"

definition WithPortfolio :: "Portfolio \<Rightarrow> 's Runner \<Rightarrow> 's Runner" where
  "WithPortfolio p r = r\<lparr>Portfolio := Some p\<rparr>"

definition WithRiskManager :: "RiskSettings \<Rightarrow> 's Runner \<Rightarrow> 's Runner" where
  "WithRiskManager rm r = r\<lparr>RiskManager := Some rm\<rparr>"

definition WithData :: "TimeseriesRow list \<Rightarrow> 's Runner \<Rightarrow> 's Runner" where
  "WithData d r = r\<lparr>Data := Some d\<rparr>"

definition Runner_New :: "'s Strategy \<Rightarrow> ('s Runner \<Rightarrow> 's Runner) list \<Rightarrow> 's Runner" where
  "Runner_New strategy opts =
     fold (\<lambda>opt r. opt r) opts
       \<lparr>Strategy = Some strategy, Portfolio = None, RiskManager = None, Data = None,
        CurrentTime = 0, EquityCurve = []\<rparr>"

definition validateComponents :: "'s Runner \<Rightarrow> error option" where
  "validateComponents r =
     (case Strategy r of
        None \<Rightarrow> Some StrategyNotSet
      | Some st \<Rightarrow>
          (case Portfolio r of
             None \<Rightarrow> Some PortfolioNotSet
           | Some p \<Rightarrow>
               (case RiskManager r of
                  None \<Rightarrow> Some RiskManagerNotSet
                | Some m \<Rightarrow>
                    (case Data r of
                       None \<Rightarrow> Some DataNotSet
                     | Some d \<Rightarrow> None))))"

definition getCurrentPrices :: "(string \<rightharpoonup> Candle) \<Rightarrow> (string \<rightharpoonup> real)" where
  "getCurrentPrices data = (\<lambda>symbol. map_option CandleClose (data symbol))"

definition calculateUnrealizedPnL :: "Portfolio \<Rightarrow> real" where
  "calculateUnrealizedPnL p = foldl (\<lambda>total (instrument, pos). total + UnrealizedPnL pos) 0 (Positions p)"

definition updateEquityCurve :: "'s Runner \<Rightarrow> error option \<times> 's Runner" where
  "updateEquityCurve r =
     (case Portfolio r of
        None \<Rightarrow> (Some NilDereference, r)
      | Some p \<Rightarrow>
          (None, r\<lparr>EquityCurve := EquityCurve r @
                     [\<lparr>avTime = CurrentTime r,
                       avValue = Portfolio_Value p,
                       avCash = Cash p,
                       avOpenPositions = int (length (Positions p)),
                       avUnrealizedPnL = calculateUnrealizedPnL p\<rparr>]\<rparr>))"

definition processOrder :: "'s Runner \<Rightarrow> Order \<Rightarrow> error option \<times> 's Runner" where
  "processOrder r ord1 =
     (case RiskManager r of
        None \<Rightarrow> (Some NilDereference, r)
      | Some m \<Rightarrow>
          (case Portfolio r of
             None \<Rightarrow> (Some NilDereference, r)
           | Some p \<Rightarrow>
               (case ValidateOrder m p ord1 of
                  Some e \<Rightarrow> (Some (RiskValidationFailed e), r)
                | None \<Rightarrow>
                    (case ProcessOrder p ord1 of
                       (Some e, p') \<Rightarrow> (Some (OrderProcessingFailed e), r\<lparr>Portfolio := Some p'\<rparr>)
                     | (None, p') \<Rightarrow>
                         (case Strategy r of
                            None \<Rightarrow> (Some NilDereference, r\<lparr>Portfolio := Some p'\<rparr>)
                          | Some st \<Rightarrow>
                              (None, r\<lparr>Portfolio := Some p',
                                       Strategy := Some (st\<lparr>strategyState :=
                                           OnOrderFilled st (strategyState st) p' ord1\<rparr>)\<rparr>))))))"

fun processOrders :: "'s Runner \<Rightarrow> Order list \<Rightarrow> error option \<times> 's Runner" where
  "processOrders r [] = (None, r)"
| "processOrders r (ord1 # rest) =
     (case processOrder r ord1 of
        (Some e, r') \<Rightarrow> (Some e, r')
      | (None, r') \<Rightarrow> processOrders r' rest)"

definition processTick :: "'s Runner \<Rightarrow> (string \<rightharpoonup> Candle) \<Rightarrow> error option \<times> 's Runner" where
  "processTick r data =
     (let prices = getCurrentPrices data
      in case Portfolio r of
           None \<Rightarrow> (Some NilDereference, r)
         | Some p \<Rightarrow>
             let p1 = UpdatePositions p prices
             in case RiskManager r of
                  None \<Rightarrow> (Some NilDereference, r\<lparr>Portfolio := Some p1\<rparr>)
                | Some m \<Rightarrow>
                    (case CheckPositionExits m p1 prices of
                       (exitOrders, p2) \<Rightarrow>
                         (case (if length exitOrders > 0
                                then processOrders (r\<lparr>Portfolio := Some p2\<rparr>) exitOrders
                                else (None, r\<lparr>Portfolio := Some p2\<rparr>)) of
                            (Some e, r2) \<Rightarrow> (Some e, r2)
                          | (None, r2) \<Rightarrow>
                              (case Strategy r2 of
                                 None \<Rightarrow> (Some NilDereference, r2)
                               | Some st \<Rightarrow>
                                   (case Portfolio r2 of
                                      None \<Rightarrow> (Some NilDereference, r2)
                                    | Some p3 \<Rightarrow>
                                        (case OnTick st (strategyState st) p3 data of
                                           (orders, s') \<Rightarrow>
                                             let r3 = r2\<lparr>Strategy := Some (st\<lparr>strategyState := s'\<rparr>)\<rparr>
                                             in if length orders > 0 then processOrders r3 orders
                                                else (None, r3)))))))"

text \<open>The \<^verbatim>\<open>for\<close> loop of \<^verbatim>\<open>Start\<close> over the rows that are left.\<close>

fun StartLoop :: "'s Runner \<Rightarrow> TimeseriesRow list \<Rightarrow> error option \<times> 's Runner" where
  "StartLoop r [] = (None, r)"
| "StartLoop r (row # rows) =
     (case Get row of
        None \<Rightarrow> (Some DataError, r)
      | Some data \<Rightarrow>
          (case processTick (r\<lparr>CurrentTime := Timestamp row\<rparr>) data of
             (Some e, r1) \<Rightarrow> (Some (ProcessingError e), r1)
           | (None, r1) \<Rightarrow>
               (case updateEquityCurve r1 of
                  (Some e, r2) \<Rightarrow> (Some e, r2)
                | (None, r2) \<Rightarrow> StartLoop r2 rows)))"

definition Start :: "'s Runner \<Rightarrow> error option \<times> 's Runner" where
  "Start r =
     (case validateComponents r of
        Some e \<Rightarrow> (Some (InitializationFailed e), r)
      | None \<Rightarrow>
          (case Data r of
             None \<Rightarrow> (Some NilDereference, r)
           | Some rows \<Rightarrow> StartLoop r rows))"

section \<open>Sequences of calls\<close>

text \<open>
  Statements about every state that a portfolio or a position can reach speak of lists of
  calls. A portfolio call is \<^verbatim>\<open>ProcessOrder\<close> (whose error, if any, the caller drops) or
  \<^verbatim>\<open>UpdatePositions\<close>.
\<close>

datatype PortfolioCall = CallProcessOrder Order | CallUpdatePositions "string \<rightharpoonup> real"

fun applyCall :: "Portfolio \<Rightarrow> PortfolioCall \<Rightarrow> Portfolio" where
  "applyCall p (CallProcessOrder x) = snd (ProcessOrder p x)"
| "applyCall p (CallUpdatePositions prices) = UpdatePositions p prices"

fun runCalls :: "Portfolio \<Rightarrow> PortfolioCall list \<Rightarrow> Portfolio" where
  "runCalls p [] = p"
| "runCalls p (c # cs) = runCalls (applyCall p c) cs"

text \<open>
  \<open>callFits\<close> holds of a call unless it is an entry order that would push the quantity
  of the position it adds to beyond the largest \<^verbatim>\<open>int\<close>; \<open>callsFit\<close> asks it of every
  call of a run, in the state the call finds.
\<close>

fun callFits :: "Portfolio \<Rightarrow> PortfolioCall \<Rightarrow> bool" where
  "callFits p (CallProcessOrder x) =
     (case map_of (openPositions p) (Instrument x) of
        None \<Rightarrow> True
      | Some pos \<Rightarrow> (if Type x = Entry then sint (PosQuantity pos) + sint (Quantity x) < 2 ^ 63 else True))"
| "callFits p (CallUpdatePositions prices) = True"

fun callsFit :: "Portfolio \<Rightarrow> PortfolioCall list \<Rightarrow> bool" where
  "callsFit p [] = True"
| "callsFit p (c # cs) = (callFits p c \<and> callsFit (applyCall p c) cs)"

text \<open>
  What the functions of the portfolio maintain: the keys of the open map are distinct,
  each position is held under its instrument with a positive quantity and is not closed,
  and the closed list holds closed positions of quantity 0.
\<close>

definition positionsOK :: "Portfolio \<Rightarrow> bool" where
  "positionsOK p \<longleftrightarrow>
     distinct (map fst (openPositions p))
     \<and> (\<forall>k pos. map_of (openPositions p) k = Some pos \<longrightarrow>
           PosInstrument pos = k \<and> 0 < sint (PosQuantity pos) \<and> Status pos \<noteq> Closed)
     \<and> (\<forall>c\<in>set (closedPositions p). PosQuantity c = 0 \<and> Status c = Closed)"

text \<open>
  A position call is \<^verbatim>\<open>UpdatePrice\<close> or one evaluation of the exit conditions by a risk
  manager with the given settings, which leaves the position as the check left it.
\<close>

datatype PositionCall = CallUpdatePrice real | CallCheckExitConditions RiskSettings real

fun applyPositionCall :: "Position \<Rightarrow> PositionCall \<Rightarrow> Position" where
  "applyPositionCall pos (CallUpdatePrice c) = UpdatePrice pos c"
| "applyPositionCall pos (CallCheckExitConditions m c) = snd (checkExitConditions m pos c)"

fun runPositionCalls :: "Position \<Rightarrow> PositionCall list \<Rightarrow> Position" where
  "runPositionCalls pos [] = pos"
| "runPositionCalls pos (c # cs) = runPositionCalls (applyPositionCall pos c) cs"

section \<open>Concrete inputs\<close>

text \<open>The end-to-end scenario: 10000 in cash, ten AAPL bought at 100, marked and sold at 120.\<close>

definition c1_settings :: Settings where
  "c1_settings = \<lparr>InitialCapital = 10000, EnableShorts = False, DefaultLeverage = 0\<rparr>"

definition c1_entry :: Order where
  "c1_entry = Fill (NewOrder ''AAPL'' Long Entry 10 0) 100"

definition c1_exit :: Order where
  "c1_exit = Fill (NewOrder ''AAPL'' Long Exit 10 0) 120"

definition c1_entered :: Portfolio where
  "c1_entered = snd (ProcessOrder (Portfolio_New c1_settings) c1_entry)"

definition c1_marked :: Portfolio where
  "c1_marked = UpdatePositions c1_entered [''AAPL'' \<mapsto> 120]"

definition c1_exited :: Portfolio where
  "c1_exited = snd (ProcessOrder c1_marked c1_exit)"

text \<open>An order with leverage 2 on a portfolio of 600 without, and of 400 with, a default leverage.\<close>

definition c2_portfolio :: Portfolio where
  "c2_portfolio = Portfolio_New \<lparr>InitialCapital = 600, EnableShorts = False, DefaultLeverage = 0\<rparr>"

definition c2_geared :: Portfolio where
  "c2_geared = Portfolio_New \<lparr>InitialCapital = 400, EnableShorts = False, DefaultLeverage = 2\<rparr>"

definition c2_order :: Order where
  "c2_order = Fill (NewOrder ''AAPL'' Long Entry 10 2) 100"

text \<open>
  Three entries whose running average depends on the order in which they arrive, and two
  entries that fill the 64 bits of the quantity.
\<close>

definition c3_one :: Order where
  "c3_one = \<lparr>Instrument = ''AAPL'', Side = Long, Type = Entry, Quantity = 1, Price = 1, Leverage = 1\<rparr>"

definition c3_three :: Order where
  "c3_three = \<lparr>Instrument = ''AAPL'', Side = Long, Type = Entry, Quantity = 3, Price = 3, Leverage = 1\<rparr>"

definition c3_four :: Order where
  "c3_four = \<lparr>Instrument = ''AAPL'', Side = Long, Type = Entry, Quantity = 4, Price = 5, Leverage = 1\<rparr>"

definition c3_pos_one :: Position where "c3_pos_one = projr (NewPosition c3_one)"

definition c3_pos_four :: Position where "c3_pos_four = projr (NewPosition c3_four)"

definition c3_first :: Order where
  "c3_first = \<lparr>Instrument = ''AAPL'', Side = Long, Type = Entry, Quantity = 9223372036854775807, Price = 1, Leverage = 1\<rparr>"

definition c3_second :: Order where
  "c3_second = \<lparr>Instrument = ''AAPL'', Side = Long, Type = Entry, Quantity = 1, Price = 1, Leverage = 1\<rparr>"

text \<open>A portfolio holding ten AAPL, and orders that sell all of them and four of them.\<close>

definition c5_position :: Position where
  "c5_position =
     \<lparr>PosInstrument = ''AAPL'', PosSide = Long, PosQuantity = 10, OpenPrice = 100, ClosePrice = 0,
      Status = Open, Orders = [zero_Order], PosLeverage = 1, StopLoss = 0, TakeProfit = 0,
      MaxDrawdown = 0, HighestPrice = 0, LowestPrice = 0, UnrealizedPnL = 0, RealizedPnL = 0,
      TrailingStopHigh = 100\<rparr>"

definition c5_portfolio :: Portfolio where
  "c5_portfolio =
     \<lparr>cash = 9000, openPositions = [(''AAPL'', c5_position)], closedPositions = [], orderHistory = [],
      settings = \<lparr>InitialCapital = 10000, EnableShorts = False, DefaultLeverage = 0\<rparr>\<rparr>"

definition c5_full :: Order where
  "c5_full = \<lparr>Instrument = ''AAPL'', Side = Short, Type = Exit, Quantity = 10, Price = 120, Leverage = 0\<rparr>"

definition c5_part :: Order where
  "c5_part = \<lparr>Instrument = ''AAPL'', Side = Short, Type = Exit, Quantity = 4, Price = 120, Leverage = 0\<rparr>"

text \<open>Runs of a fresh portfolio: one that re-enters an instrument, one that overflows, one that does neither.\<close>

definition c6_settings :: Settings where
  "c6_settings = \<lparr>InitialCapital = 10 ^ 19, EnableShorts = False, DefaultLeverage = 0\<rparr>"

definition c6_entry :: Order where
  "c6_entry = Fill (NewOrder ''AAPL'' Long Entry 10 0) 100"

definition c6_exit :: Order where
  "c6_exit = Fill (NewOrder ''AAPL'' Long Exit 10 0) 120"

definition c6_reentry :: "PortfolioCall list" where
  "c6_reentry = [CallProcessOrder c6_entry, CallProcessOrder c6_exit, CallProcessOrder c6_entry]"

definition c6_huge :: Order where
  "c6_huge = Fill (NewOrder ''AAPL'' Long Entry 9223372036854775807 0) 1"

definition c6_one :: Order where
  "c6_one = Fill (NewOrder ''AAPL'' Long Entry 1 0) 1"

definition c6_overflow :: "PortfolioCall list" where
  "c6_overflow = [CallProcessOrder c6_huge, CallProcessOrder c6_one]"

definition c6_calls :: "PortfolioCall list" where
  "c6_calls = [CallProcessOrder c6_entry, CallUpdatePositions [''AAPL'' \<mapsto> 120],
               CallProcessOrder (Fill (NewOrder ''AAPL'' Long Exit 4 0) 120),
               CallProcessOrder (Fill (NewOrder ''MSFT'' Long Entry 5 0) 50),
               CallProcessOrder (Fill (NewOrder ''AAPL'' Long Exit 6 0) 125)]"

text \<open>A long position opened at 100 under a 5% stop-loss, a 10% take-profit and a 3% trailing stop.\<close>

definition c7_position :: Position where
  "c7_position =
     \<lparr>PosInstrument = ''AAPL'', PosSide = Long, PosQuantity = 10, OpenPrice = 100, ClosePrice = 0,
      Status = Open, Orders = [zero_Order], PosLeverage = 1, StopLoss = 0, TakeProfit = 0,
      MaxDrawdown = 0, HighestPrice = 0, LowestPrice = 0, UnrealizedPnL = 0, RealizedPnL = 0,
      TrailingStopHigh = 100\<rparr>"

definition c7_portfolio :: Portfolio where
  "c7_portfolio =
     \<lparr>cash = 9000, openPositions = [(''AAPL'', c7_position)], closedPositions = [], orderHistory = [],
      settings = \<lparr>InitialCapital = 10000, EnableShorts = False, DefaultLeverage = 0\<rparr>\<rparr>"

definition c7_risk :: RiskSettings where
  "c7_risk = \<lparr>MaxLeverage = 0, MaxPositionAllocationRate = 0, UseStopLoss = True, DefaultStopLoss = 5 / 100,
              UseTakeProfit = True, DefaultTakeProfit = 10 / 100, UseTrailingStop = True,
              DefaultTrailingStop = 3 / 100\<rparr>"

text \<open>A long and a short position under a trailing stop alone, and two runs of calls.\<close>

definition c8_long :: Position where
  "c8_long =
     \<lparr>PosInstrument = ''AAPL'', PosSide = Long, PosQuantity = 10, OpenPrice = 100, ClosePrice = 0,
      Status = Open, Orders = [zero_Order], PosLeverage = 1, StopLoss = 0, TakeProfit = 0,
      MaxDrawdown = 0, HighestPrice = 0, LowestPrice = 0, UnrealizedPnL = 0, RealizedPnL = 0,
      TrailingStopHigh = 100\<rparr>"

definition c8_short :: Position where
  "c8_short = c8_long\<lparr>PosSide := Short\<rparr>"

definition c8_risk :: RiskSettings where
  "c8_risk = \<lparr>MaxLeverage = 0, MaxPositionAllocationRate = 0, UseStopLoss = False, DefaultStopLoss = 0,
              UseTakeProfit = False, DefaultTakeProfit = 0, UseTrailingStop = True,
              DefaultTrailingStop = 3 / 100\<rparr>"

definition c8_calls :: "PositionCall list" where
  "c8_calls = [CallUpdatePrice 130, CallCheckExitConditions c8_risk 120, CallCheckExitConditions c8_risk 90]"

definition c8_more :: "PositionCall list" where
  "c8_more = [CallCheckExitConditions c8_risk 110, CallUpdatePrice 80, CallCheckExitConditions c8_risk 85]"

text \<open>
  A run of two ticks: the strategy buys ten AAPL at 100 on the first, and the 5% stop-loss
  sells them at 94 on the second.
\<close>

definition c9_strategy :: "nat Strategy" where
  "c9_strategy =
     \<lparr>strategyState = 0,
      OnTick = (\<lambda>s p data. (if s = 0 then [Fill (NewOrder ''AAPL'' Long Entry 10 0) 100] else [], Suc s)),
      OnOrderFilled = (\<lambda>s p x. s)\<rparr>"

definition c9_risk :: RiskSettings where
  "c9_risk = \<lparr>MaxLeverage = 0, MaxPositionAllocationRate = 0, UseStopLoss = True, DefaultStopLoss = 5 / 100,
              UseTakeProfit = False, DefaultTakeProfit = 0, UseTrailingStop = False, DefaultTrailingStop = 0\<rparr>"

definition c9_candle :: "Time \<Rightarrow> real \<Rightarrow> Candle" where
  "c9_candle t c = \<lparr>CandleTime = t, CandleOpen = c, CandleHigh = c, CandleLow = c, CandleClose = c, CandleVolume = 0\<rparr>"

definition c9_rows :: "TimeseriesRow list" where
  "c9_rows = [\<lparr>Timestamp = 1, Get = Some [''AAPL'' \<mapsto> c9_candle 1 100]\<rparr>,
              \<lparr>Timestamp = 2, Get = Some [''AAPL'' \<mapsto> c9_candle 2 94]\<rparr>]"

definition c9_runner :: "nat Runner" where
  "c9_runner = Runner_New c9_strategy
      [WithPortfolio (Portfolio_New \<lparr>InitialCapital = 10000, EnableShorts = False, DefaultLeverage = 0\<rparr>),
       WithRiskManager c9_risk, WithData c9_rows]"

text \<open>Entry orders as a struct literal without leverage and with leverage 2, and three orders to follow.\<close>

definition c10_entry :: Order where
  "c10_entry = \<lparr>Instrument = ''AAPL'', Side = Long, Type = Entry, Quantity = 10, Price = 100, Leverage = 0\<rparr>"

definition c10_geared :: Order where
  "c10_geared = \<lparr>Instrument = ''AAPL'', Side = Long, Type = Entry, Quantity = 10, Price = 100, Leverage = 2\<rparr>"

definition c10_orders :: "Order list" where
  "c10_orders = [\<lparr>Instrument = ''AAPL'', Side = Long, Type = Entry, Quantity = 5, Price = 110, Leverage = 2\<rparr>,
                 \<lparr>Instrument = ''MSFT'', Side = Long, Type = Entry, Quantity = 5, Price = 110, Leverage = 2\<rparr>,
                 \<lparr>Instrument = ''AAPL'', Side = Long, Type = Exit, Quantity = 15, Price = 120, Leverage = 2\<rparr>]"

definition c10_position :: Position where
  "c10_position = projr (NewPosition c10_geared)"

section \<open>Quantities: 64-bit arithmetic without overflow\<close>

lemma sint_add_no_overflow:
  fixes a b :: "64 word"
  assumes "0 \<le> sint a" "0 \<le> sint b" "sint a + sint b < 2 ^ 63"
  shows "sint (a + b) = sint a + sint b"
proof -
  have "sint (a + b) = signed_take_bit 63 (sint a + sint b)"
    by (simp add: sint_word_ariths)
  also have "\<dots> = sint a + sint b"
    using assms by (intro signed_take_bit_int_eq_self) auto
  finally show ?thesis .
qed

lemma sint_sub_no_overflow:
  fixes a b :: "64 word"
  assumes "0 \<le> sint b" "sint b \<le> sint a"
  shows "sint (a - b) = sint a - sint b"
proof -
  have "sint a < 2 ^ 63" using sint_lt[of a] by simp
  have "sint (a - b) = signed_take_bit 63 (sint a - sint b)"
    by (simp add: sint_word_ariths)
  also have "\<dots> = sint a - sint b"
    using assms \<open>sint a < 2 ^ 63\<close> by (intro signed_take_bit_int_eq_self) auto
  finally show ?thesis .
qed

lemma float64_pos: "0 < sint q \<Longrightarrow> 0 < float64 q"
  by (simp only: float64_def of_int_0_less_iff)

lemma float64_of_sint: "sint q = k \<Longrightarrow> float64 q = real_of_int k"
  by (simp only: float64_def)

section \<open>Facts about positions\<close>

lemma NewPosition_Inr:
  assumes "NewPosition e = Inr pos"
  shows "Type e = Entry \<and> 0 < sint (Quantity e) \<and> PosQuantity pos = Quantity e \<and> OpenPrice pos = Price e
     \<and> PosInstrument pos = Instrument e \<and> PosSide pos = Side e \<and> Status pos = Open
     \<and> TrailingStopHigh pos = Price e \<and> PosLeverage pos = (if Leverage e \<le> 1 then 1 else Leverage e)
     \<and> Orders pos = [zero_Order, e\<lparr>Leverage := (if Leverage e \<le> 1 then 1 else Leverage e)\<rparr>]
     \<and> RealizedPnL pos = 0 \<and> UnrealizedPnL pos = 0 \<and> ClosePrice pos = 0"
  using assms by (auto simp: NewPosition_def Let_def split: if_splits)

lemma AddOrder_error_unchanged: "AddOrder pos x = (Some e, pos') \<Longrightarrow> pos' = pos"
  by (auto simp: AddOrder_def Let_def split: if_splits OrderType.splits)

lemma AddOrder_accepted:
  assumes "AddOrder pos x = (None, pos')"
  shows "Instrument x = PosInstrument pos \<and> 0 < sint (Quantity x)
     \<and> (Type x = Exit \<longrightarrow> sint (Quantity x) \<le> sint (PosQuantity pos))"
  using assms by (auto simp: AddOrder_def Let_def split: if_splits OrderType.splits)

lemma AddOrder_Entry_eq:
  assumes "Instrument x = PosInstrument pos" "0 < sint (Quantity x)" "Type x = Entry"
  shows "AddOrder pos x =
     (None, pos\<lparr>OpenPrice := round64 (round64 (round64 (OpenPrice pos * float64 (PosQuantity pos))
                                                 + round64 (Price x * float64 (Quantity x)))
                                        / float64 (PosQuantity pos + Quantity x)),
                 PosQuantity := PosQuantity pos + Quantity x,
                 Orders := Orders pos @ [x]\<rparr>)"
  using assms by (simp add: AddOrder_def Let_def)

lemma AddOrder_Exit_eq:
  assumes "Instrument x = PosInstrument pos" "0 < sint (Quantity x)" "Type x = Exit"
    "sint (Quantity x) \<le> sint (PosQuantity pos)"
  shows "AddOrder pos x =
     (None, pos\<lparr>PosQuantity := PosQuantity pos - Quantity x,
                 Status := (if PosQuantity pos - Quantity x = 0 then Closed else PartiallyOpen),
                 ClosePrice := (if PosQuantity pos - Quantity x = 0 then Price x else ClosePrice pos),
                 RealizedPnL := RealizedPnL pos +
                   (if PosSide pos = Long
                    then float64 (Quantity x) * (Price x - OpenPrice pos) * PosLeverage pos
                    else float64 (Quantity x) * (OpenPrice pos - Price x) * PosLeverage pos),
                 Orders := Orders pos @ [x]\<rparr>)"
proof (cases "PosQuantity pos - Quantity x = 0")
  case True
  with assms show ?thesis by (cases "PosSide pos = Long") (simp_all add: AddOrder_def Let_def)
next
  case False
  with assms show ?thesis by (cases "PosSide pos = Long") (simp_all add: AddOrder_def Let_def)
qed

lemma AddOrder_Entry_accepted:
  assumes "AddOrder pos a = (None, pos1)" "Type a = Entry"
  shows "0 < sint (Quantity a) \<and> Instrument a = PosInstrument pos
     \<and> PosQuantity pos1 = PosQuantity pos + Quantity a
     \<and> OpenPrice pos1 =
          round64 (round64 (round64 (OpenPrice pos * float64 (PosQuantity pos))
                            + round64 (Price a * float64 (Quantity a)))
                   / float64 (PosQuantity pos + Quantity a))
     \<and> PosInstrument pos1 = PosInstrument pos"
  using assms by (auto simp: AddOrder_def Let_def split: if_splits)

lemma AddOrder_Exit_full:
  assumes "PosInstrument pos = Instrument x" "Type x = Exit" "0 < sint (PosQuantity pos)"
    "Quantity x = PosQuantity pos"
  shows "fst (AddOrder pos x) = None \<and> Status (snd (AddOrder pos x)) = Closed
     \<and> ClosePrice (snd (AddOrder pos x)) = Price x \<and> PosQuantity (snd (AddOrder pos x)) = 0
     \<and> PosInstrument (snd (AddOrder pos x)) = PosInstrument pos"
  using assms by (simp add: AddOrder_def Let_def)

lemma AddOrder_Exit_partial:
  assumes "PosInstrument pos = Instrument x" "Type x = Exit"
    "0 < sint (Quantity x)" "sint (Quantity x) < sint (PosQuantity pos)"
  shows "fst (AddOrder pos x) = None \<and> Status (snd (AddOrder pos x)) = PartiallyOpen
     \<and> sint (PosQuantity (snd (AddOrder pos x))) = sint (PosQuantity pos) - sint (Quantity x)
     \<and> PosInstrument (snd (AddOrder pos x)) = PosInstrument pos"
proof -
  have d: "sint (PosQuantity pos - Quantity x) = sint (PosQuantity pos) - sint (Quantity x)"
    using assms by (intro sint_sub_no_overflow) auto
  then have "sint (PosQuantity pos - Quantity x) \<noteq> 0" using assms by simp
  then have nz: "PosQuantity pos - Quantity x \<noteq> 0" by auto
  show ?thesis using assms nz d by (simp add: AddOrder_def Let_def)
qed

lemma AddOrder_history:
  "Orders (snd (AddOrder pos x)) = (if fst (AddOrder pos x) = None then Orders pos @ [x] else Orders pos)"
proof (cases "AddOrder pos x")
  case (Pair err pos')
  show ?thesis
  proof (cases err)
    case None
    with Pair have acc: "AddOrder pos x = (None, pos')" by simp
    note ok = AddOrder_accepted[OF acc]
    show ?thesis
    proof (cases "Type x")
      case Entry
      with ok show ?thesis using AddOrder_Entry_eq[of x pos] by simp
    next
      case Exit
      with ok show ?thesis using AddOrder_Exit_eq[of x pos] by simp
    qed
  next
    case (Some e)
    with Pair have "pos' = pos" using AddOrder_error_unchanged by blast
    with Pair Some show ?thesis by simp
  qed
qed

lemma AddOrder_keeps_position_ok:
  assumes "PosInstrument pos = k" "0 < sint (PosQuantity pos)" "Status pos \<noteq> Closed"
    and fit: "Type x = Entry \<Longrightarrow> sint (PosQuantity pos) + sint (Quantity x) < 2 ^ 63"
    and run: "AddOrder pos x = (err, pos')"
  shows "PosInstrument pos' = k
     \<and> (if Status pos' = Closed then PosQuantity pos' = 0 \<and> err = None \<and> Type x = Exit
        else 0 < sint (PosQuantity pos'))"
proof (cases err)
  case (Some e)
  with run have "pos' = pos" using AddOrder_error_unchanged by blast
  with assms show ?thesis by simp
next
  case None
  with run have acc: "AddOrder pos x = (None, pos')" by simp
  note ok = AddOrder_accepted[OF acc]
  show ?thesis
  proof (cases "Type x")
    case Entry
    have s: "sint (PosQuantity pos + Quantity x) = sint (PosQuantity pos) + sint (Quantity x)"
      using assms(2) ok fit[OF Entry] by (intro sint_add_no_overflow) auto
    have "pos' = pos\<lparr>OpenPrice := round64 (round64 (round64 (OpenPrice pos * float64 (PosQuantity pos))
                                                 + round64 (Price x * float64 (Quantity x)))
                                        / float64 (PosQuantity pos + Quantity x)),
                 PosQuantity := PosQuantity pos + Quantity x,
                 Orders := Orders pos @ [x]\<rparr>"
      using AddOrder_Entry_eq[of x pos] ok Entry acc by simp
    then show ?thesis using s ok assms(1,2,3) by simp
  next
    case Exit
    with ok have le: "sint (Quantity x) \<le> sint (PosQuantity pos)" by simp
    have d: "sint (PosQuantity pos - Quantity x) = sint (PosQuantity pos) - sint (Quantity x)"
      using ok le by (intro sint_sub_no_overflow) auto
    have eq: "pos' = pos\<lparr>PosQuantity := PosQuantity pos - Quantity x,
                 Status := (if PosQuantity pos - Quantity x = 0 then Closed else PartiallyOpen),
                 ClosePrice := (if PosQuantity pos - Quantity x = 0 then Price x else ClosePrice pos),
                 RealizedPnL := RealizedPnL pos +
                   (if PosSide pos = Long
                    then float64 (Quantity x) * (Price x - OpenPrice pos) * PosLeverage pos
                    else float64 (Quantity x) * (OpenPrice pos - Price x) * PosLeverage pos),
                 Orders := Orders pos @ [x]\<rparr>"
      using AddOrder_Exit_eq[of x pos] ok Exit le acc by simp
    show ?thesis
    proof (cases "PosQuantity pos - Quantity x = 0")
      case True
      then show ?thesis using eq None Exit assms(1) by simp
    next
      case False
      then have "sint (PosQuantity pos - Quantity x) \<noteq> 0"
        unfolding signed_eq_0_iff .
      with d le have "0 < sint (PosQuantity pos - Quantity x)" by simp
      then show ?thesis using eq False assms(1) by simp
    qed
  qed
qed

lemma UpdatePrice_keeps:
  "PosInstrument (UpdatePrice pos c) = PosInstrument pos \<and> PosQuantity (UpdatePrice pos c) = PosQuantity pos
   \<and> Status (UpdatePrice pos c) = Status pos \<and> PosSide (UpdatePrice pos c) = PosSide pos
   \<and> TrailingStopHigh (UpdatePrice pos c) = TrailingStopHigh pos
   \<and> OpenPrice (UpdatePrice pos c) = OpenPrice pos"
  by (simp add: UpdatePrice_def Let_def)

lemma AddOrders_count_le: "AddOrders pos es = (pos', n) \<Longrightarrow> n \<le> length es"
proof (induction es arbitrary: pos pos' n)
  case Nil
  then show ?case by simp
next
  case (Cons a es)
  then show ?case
    by (fastforce split: prod.splits option.splits)
qed

lemma AddOrders_all_accepted_Cons:
  assumes "AddOrders pos (a # es) = (pos', Suc (length es))"
  shows "\<exists>pos1. AddOrder pos a = (None, pos1) \<and> AddOrders pos1 es = (pos', length es)"
proof (cases "AddOrder pos a")
  case (Pair err pos1)
  show ?thesis
  proof (cases err)
    case None
    with Pair assms show ?thesis by (auto split: prod.splits)
  next
    case (Some e)
    with Pair assms have "AddOrders pos1 es = (pos', Suc (length es))" by simp
    from AddOrders_count_le[OF this] show ?thesis by simp
  qed
qed

lemma AddOrders_accepted_quantities:
  assumes "AddOrders pos es = (pos', length es)"
  shows "\<forall>x\<in>set es. 0 < sint (Quantity x)"
  using assms
proof (induction es arbitrary: pos)
  case Nil
  then show ?case by simp
next
  case (Cons a es)
  from Cons.prems obtain pos1 where
    step: "AddOrder pos a = (None, pos1)" and rest: "AddOrders pos1 es = (pos', length es)"
    using AddOrders_all_accepted_Cons by force
  from step have "0 < sint (Quantity a)"
    by (auto simp: AddOrder_def split: if_splits)
  with Cons.IH[OF rest] show ?case by simp
qed

lemma AddOrders_history:
  "AddOrders pos es = (pos', n) \<Longrightarrow> length (Orders pos') = length (Orders pos) + n"
proof (induction es arbitrary: pos pos' n)
  case Nil
  then show ?case by simp
next
  case (Cons x es)
  obtain err pos1 where a: "AddOrder pos x = (err, pos1)" by (cases "AddOrder pos x")
  have h: "Orders pos1 = (if err = None then Orders pos @ [x] else Orders pos)"
    using AddOrder_history[of pos x] a by simp
  show ?case
  proof (cases err)
    case None
    obtain pos2 k where r: "AddOrders pos1 es = (pos2, k)" by (cases "AddOrders pos1 es")
    with Cons.prems a None have "pos' = pos2" "n = Suc k" by simp_all
    with Cons.IH[OF r] h None show ?thesis by simp
  next
    case (Some e)
    with Cons.prems a have "AddOrders pos1 es = (pos', n)" by simp
    from Cons.IH[OF this] h Some show ?thesis by simp
  qed
qed

section \<open>Rounding to \<^verbatim>\<open>float64\<close>\<close>

text \<open>
  Rounding moves a real by at most half a unit in the last place, which is at most the
  fraction \<open>2\<^sup>-\<^sup>5\<^sup>3\<close> of its magnitude; \<open>round64_at\<close> evaluates the rounding of a real
  whose binary exponent is known.
\<close>

lemma roundTiesToEven_near: "\<bar>of_int (roundTiesToEven y) - y\<bar> \<le> 1 / 2"
proof -
  have "of_int \<lfloor>y\<rfloor> \<le> y" "y < of_int \<lfloor>y\<rfloor> + 1" by linarith+
  then show ?thesis by (auto simp: roundTiesToEven_def Let_def)
qed

lemma round64_error: "\<bar>round64 x - x\<bar> \<le> \<bar>x\<bar> / 2 ^ 53"
proof (cases "x = 0")
  case True
  then show ?thesis by (simp add: round64_def)
next
  case False
  define e where "e = \<lfloor>log 2 \<bar>x\<bar>\<rfloor>"
  define P :: real where "P = 2 powr (of_int e - 52)"
  have Ppos: "0 < P" by (simp add: P_def)
  have r: "round64 x = of_int (roundTiesToEven (x / P)) * P"
    using False by (simp add: round64_def e_def P_def Let_def)
  have "\<bar>round64 x - x\<bar> = \<bar>of_int (roundTiesToEven (x / P)) - x / P\<bar> * P"
  proof -
    have "round64 x - x = (of_int (roundTiesToEven (x / P)) - x / P) * P"
      using Ppos by (simp add: r algebra_simps)
    then show ?thesis using Ppos by (simp add: abs_mult)
  qed
  also have "\<dots> \<le> (1 / 2) * P"
    using roundTiesToEven_near[of "x / P"] Ppos by (intro mult_right_mono) auto
  also have "\<dots> = 2 powr of_int e / 2 ^ 53"
  proof -
    have "P = 2 powr of_int e * 2 powr (- 52)" unfolding P_def by (simp add: powr_diff powr_minus divide_simps)
    moreover have "(2::real) powr (- 52) = 1 / 2 ^ 52"
      by (simp add: powr_minus powr_realpow[symmetric] divide_simps)
    ultimately show ?thesis by simp
  qed
  also have "\<dots> \<le> \<bar>x\<bar> / 2 ^ 53"
  proof -
    have "of_int e \<le> log 2 \<bar>x\<bar>" unfolding e_def by linarith
    then have "2 powr of_int e \<le> 2 powr log 2 \<bar>x\<bar>" by simp
    also have "\<dots> = \<bar>x\<bar>" using False by simp
    finally show ?thesis by (simp add: divide_right_mono)
  qed
  finally show ?thesis .
qed

lemma round64_at:
  fixes k :: nat
  assumes "2 ^ k \<le> \<bar>x\<bar>" "\<bar>x\<bar> < 2 ^ Suc k"
  shows "round64 x = of_int (roundTiesToEven (x * 2 ^ 52 / 2 ^ k)) * 2 ^ k / 2 ^ 52"
proof -
  have nz: "x \<noteq> 0"
  proof
    assume "x = 0"
    with assms(1) have "(2::real) ^ k \<le> 0" by simp
    moreover have "(0::real) < 2 ^ k" by simp
    ultimately show False by linarith
  qed
  then have pos: "0 < \<bar>x\<bar>" by simp
  have "\<lfloor>log 2 \<bar>x\<bar>\<rfloor> = int k"
  proof -
    have "(2::real) powr (of_int (int k)) = 2 ^ k" by (simp add: powr_realpow)
    moreover have "(2::real) powr (of_int (int k + 1)) = 2 ^ Suc k"
    proof -
      have "of_int (int k + 1) = real (Suc k)" by simp
      moreover have "(2::real) powr real (Suc k) = 2 ^ Suc k" by (rule powr_realpow) simp
      ultimately show ?thesis by (simp only:)
    qed
    ultimately have "2 powr (of_int (int k)) \<le> \<bar>x\<bar> \<and> \<bar>x\<bar> < 2 powr (of_int (int k + 1))"
      using assms by (simp only:)
    then show ?thesis using floor_log_eq_powr_iff[OF pos, of 2 "int k"] by simp
  qed
  moreover have "(2::real) powr (of_int (int k) - 52) = 2 ^ k / 2 ^ 52"
    by (simp add: powr_diff powr_realpow powr_realpow[symmetric, of 2 52])
  ultimately have "round64 x = of_int (roundTiesToEven (x / (2 ^ k / 2 ^ 52))) * (2 ^ k / 2 ^ 52)"
    using nz by (simp only: round64_def Let_def if_False)
  moreover have "x / (2 ^ k / 2 ^ 52) = x * 2 ^ 52 / 2 ^ k" by simp
  ultimately show ?thesis by (simp only: times_divide_eq_right)
qed

text \<open>
  One entry rounds four times: the two products, their sum and the quotient. The quotient
  times the new quantity is then within the fraction \<open>(1 + 2\<^sup>-\<^sup>5\<^sup>3)\<^sup>3 - 1\<close> of the exact
  sum of the two products.
\<close>

lemma round64_entry_error:
  fixes x y Q1 :: real
  assumes Q1: "0 < Q1"
  shows "\<bar>round64 (round64 (round64 x + round64 y) / Q1) * Q1 - (x + y)\<bar>
           \<le> ((1 + 1 / 2 ^ 53) ^ 3 - 1) * (\<bar>x\<bar> + \<bar>y\<bar>)"
proof -
  define m1 where "m1 = round64 x"
  define m2 where "m2 = round64 y"
  define tv where "tv = round64 (m1 + m2)"
  define A1 where "A1 = round64 (tv / Q1)"
  have e1: "\<bar>m1 - x\<bar> \<le> \<bar>x\<bar> / 2 ^ 53" unfolding m1_def by (rule round64_error)
  have e2: "\<bar>m2 - y\<bar> \<le> \<bar>y\<bar> / 2 ^ 53" unfolding m2_def by (rule round64_error)
  have e3: "\<bar>tv - (m1 + m2)\<bar> \<le> \<bar>m1 + m2\<bar> / 2 ^ 53" unfolding tv_def by (rule round64_error)
  have e4: "\<bar>A1 - tv / Q1\<bar> \<le> \<bar>tv / Q1\<bar> / 2 ^ 53" unfolding A1_def by (rule round64_error)
  have e4': "\<bar>A1 * Q1 - tv\<bar> \<le> \<bar>tv\<bar> / 2 ^ 53"
  proof -
    have "A1 * Q1 - tv = (A1 - tv / Q1) * Q1" using Q1 by (simp add: algebra_simps)
    then have "\<bar>A1 * Q1 - tv\<bar> = \<bar>A1 - tv / Q1\<bar> * Q1" using Q1 by (simp add: abs_mult)
    also have "\<dots> \<le> (\<bar>tv / Q1\<bar> / 2 ^ 53) * Q1" using e4 Q1 by (intro mult_right_mono) auto
    also have "\<dots> = \<bar>tv\<bar> / 2 ^ 53" using Q1 by (simp add: abs_divide)
    finally show ?thesis .
  qed
  define X where "X = \<bar>x\<bar>"
  define Y where "Y = \<bar>y\<bar>"
  define d1 where "d1 = \<bar>m1 - x\<bar>"
  define d2 where "d2 = \<bar>m2 - y\<bar>"
  define M where "M = \<bar>m1 + m2\<bar>"
  define d3 where "d3 = \<bar>tv - (m1 + m2)\<bar>"
  define V where "V = \<bar>tv\<bar>"
  define d4 where "d4 = \<bar>A1 * Q1 - tv\<bar>"
  define D where "D = \<bar>A1 * Q1 - (x + y)\<bar>"
  have f1: "d1 * 2 ^ 53 \<le> X" using e1 unfolding d1_def X_def by (simp add: field_simps)
  have f2: "d2 * 2 ^ 53 \<le> Y" using e2 unfolding d2_def Y_def by (simp add: field_simps)
  have f3: "d3 * 2 ^ 53 \<le> M" using e3 unfolding d3_def M_def by (simp add: field_simps)
  have f4: "d4 * 2 ^ 53 \<le> V" using e4' unfolding d4_def V_def by (simp add: field_simps)
  have g1: "M \<le> X + Y + d1 + d2" unfolding M_def X_def Y_def d1_def d2_def by linarith
  have g2: "V \<le> M + d3" unfolding V_def M_def d3_def by linarith
  have g3: "D \<le> d4 + d3 + d1 + d2" unfolding D_def d4_def d3_def d1_def d2_def by linarith
  have nn: "0 \<le> X" "0 \<le> Y" unfolding X_def Y_def by simp_all
  have "D * 2 ^ 53 * 2 ^ 53 * 2 ^ 53 \<le> ((2 ^ 53 + 1) ^ 3 - 2 ^ 53 * 2 ^ 53 * 2 ^ 53) * (X + Y)"
    using f1 f2 f3 f4 g1 g2 g3 nn by (simp add: power3_eq_cube)
  moreover have "((1 + 1 / 2 ^ 53) ^ 3 - 1) * (X + Y)
      = ((2 ^ 53 + 1) ^ 3 - 2 ^ 53 * 2 ^ 53 * 2 ^ 53) * (X + Y) / (2 ^ 53 * 2 ^ 53 * 2 ^ 53)"
    by (simp add: power3_eq_cube field_simps)
  ultimately have "D \<le> ((1 + 1 / 2 ^ 53) ^ 3 - 1) * (X + Y)"
    by (simp add: field_simps)
  then have "\<bar>A1 * Q1 - (x + y)\<bar> \<le> ((1 + 1 / 2 ^ 53) ^ 3 - 1) * (\<bar>x\<bar> + \<bar>y\<bar>)"
    unfolding D_def X_def Y_def .
  then show ?thesis unfolding A1_def tv_def m1_def m2_def .
qed

lemma entry_step_error:
  fixes x y Q1 S T eps :: real
  assumes Q1: "0 < Q1" and eps: "0 \<le> eps" and ST: "\<bar>S\<bar> \<le> T" and x: "\<bar>x - S\<bar> \<le> eps * T"
  shows "\<bar>round64 (round64 (round64 x + round64 y) / Q1) * Q1 - (S + y)\<bar>
           \<le> ((1 + eps) * (1 + 1 / 2 ^ 53) ^ 3 - 1) * (T + \<bar>y\<bar>)
         \<and> \<bar>S + y\<bar> \<le> T + \<bar>y\<bar> \<and> 0 \<le> (1 + eps) * (1 + 1 / 2 ^ 53) ^ 3 - 1"
proof -
  define th :: real where "th = (1 + 1 / 2 ^ 53) ^ 3 - 1"
  define R where "R = round64 (round64 (round64 x + round64 y) / Q1) * Q1"
  have th0: "0 \<le> th" unfolding th_def by simp
  have T0: "0 \<le> T" using ST by linarith
  have r: "\<bar>R - (x + y)\<bar> \<le> th * (\<bar>x\<bar> + \<bar>y\<bar>)"
    unfolding R_def th_def using Q1 by (rule round64_entry_error)
  have xb: "\<bar>x\<bar> \<le> T + eps * T" using x ST by linarith
  have "th * (\<bar>x\<bar> + \<bar>y\<bar>) \<le> th * (T + eps * T + \<bar>y\<bar>)"
    using th0 xb by (intro mult_left_mono) auto
  with r have r2: "\<bar>R - (x + y)\<bar> \<le> th * (T + eps * T + \<bar>y\<bar>)" by linarith
  have "\<bar>R - (S + y)\<bar> \<le> \<bar>R - (x + y)\<bar> + \<bar>x - S\<bar>" by linarith
  with r2 x have r3: "\<bar>R - (S + y)\<bar> \<le> th * (T + eps * T + \<bar>y\<bar>) + eps * T" by linarith
  have extra: "0 \<le> eps * \<bar>y\<bar> + eps * th * \<bar>y\<bar>"
    using eps th0 by (intro add_nonneg_nonneg mult_nonneg_nonneg) auto
  have "th * (T + eps * T + \<bar>y\<bar>) + eps * T + (eps * \<bar>y\<bar> + eps * th * \<bar>y\<bar>)
          = ((1 + eps) * (1 + th) - 1) * (T + \<bar>y\<bar>)"
    by (simp add: algebra_simps)
  with r3 extra have "\<bar>R - (S + y)\<bar> \<le> ((1 + eps) * (1 + th) - 1) * (T + \<bar>y\<bar>)" by linarith
  moreover have "1 + th = (1 + 1 / 2 ^ 53) ^ 3" unfolding th_def by simp
  moreover have "\<bar>S + y\<bar> \<le> T + \<bar>y\<bar>" using ST by linarith
  moreover have "0 \<le> (1 + eps) * (1 + th) - 1"
  proof -
    have "1 * 1 \<le> (1 + eps) * (1 + th)" using eps th0 by (intro mult_mono) auto
    then show ?thesis by simp
  qed
  ultimately show ?thesis unfolding R_def by simp
qed

section \<open>The running average of the entry price\<close>

lemma sum_list_sint_nonneg:
  "\<forall>x\<in>set es. 0 < sint (Quantity x) \<Longrightarrow> 0 \<le> (\<Sum>x\<leftarrow>es. sint (Quantity x))"
  by (induction es) auto

lemma sum_list_float64:
  "(\<Sum>x\<leftarrow>es. float64 (Quantity x)) = real_of_int (\<Sum>x\<leftarrow>es. sint (Quantity x))"
  by (induction es) (simp_all add: float64_def)

text \<open>
  Over a run of accepted entries the errors of the single entries compound: after \<open>n\<close>
  entries the open price times the quantity is within the fraction
  \<open>(1 + 2\<^sup>-\<^sup>5\<^sup>3)\<^sup>3\<^sup>n - 1\<close> of the sum of quantity times the magnitude of the price.
\<close>

lemma entry_run_error:
  assumes "AddOrders pos es = (pos', length es)"
    and "\<forall>x\<in>set es. Type x = Entry"
    and "0 < sint (PosQuantity pos)"
    and "sint (PosQuantity pos) + (\<Sum>x\<leftarrow>es. sint (Quantity x)) < 2 ^ 63"
    and "0 \<le> eps" and "\<bar>S\<bar> \<le> T"
    and "\<bar>OpenPrice pos * float64 (PosQuantity pos) - S\<bar> \<le> eps * T"
  shows "sint (PosQuantity pos') = sint (PosQuantity pos) + (\<Sum>x\<leftarrow>es. sint (Quantity x))
       \<and> \<bar>OpenPrice pos' * float64 (PosQuantity pos') - (S + (\<Sum>x\<leftarrow>es. float64 (Quantity x) * Price x))\<bar>
           \<le> ((1 + eps) * ((1 + 1 / 2 ^ 53) ^ 3) ^ length es - 1)
               * (T + (\<Sum>x\<leftarrow>es. float64 (Quantity x) * \<bar>Price x\<bar>))"
  using assms
proof (induction es arbitrary: pos eps S T)
  case Nil
  then show ?case by simp
next
  case (Cons a es)
  from Cons.prems(1) obtain pos1 where
    step: "AddOrder pos a = (None, pos1)" and rest: "AddOrders pos1 es = (pos', length es)"
    using AddOrders_all_accepted_Cons by force
  from Cons.prems(2) have ta: "Type a = Entry" and tes: "\<forall>x\<in>set es. Type x = Entry" by simp_all
  from AddOrder_Entry_accepted[OF step ta] have
    qa: "0 < sint (Quantity a)" and
    q1: "PosQuantity pos1 = PosQuantity pos + Quantity a" and
    p1: "OpenPrice pos1 =
          round64 (round64 (round64 (OpenPrice pos * float64 (PosQuantity pos))
                            + round64 (Price a * float64 (Quantity a)))
                   / float64 (PosQuantity pos + Quantity a))"
    by simp_all
  have nonneg: "0 \<le> (\<Sum>x\<leftarrow>es. sint (Quantity x))"
    using AddOrders_accepted_quantities[OF rest] by (rule sum_list_sint_nonneg)
  have bound: "sint (PosQuantity pos) + sint (Quantity a) + (\<Sum>x\<leftarrow>es. sint (Quantity x)) < 2 ^ 63"
    using Cons.prems(4) by (simp add: add.assoc)
  have s1: "sint (PosQuantity pos1) = sint (PosQuantity pos) + sint (Quantity a)"
    unfolding q1 using Cons.prems(3) qa nonneg bound
    by (intro sint_add_no_overflow) auto
  have pos1_pos: "0 < sint (PosQuantity pos1)" using s1 Cons.prems(3) qa by simp
  have Q1: "0 < float64 (PosQuantity pos1)" using pos1_pos by (rule float64_pos)
  have qa': "0 < float64 (Quantity a)" using qa by (rule float64_pos)
  define y where "y = Price a * float64 (Quantity a)"
  have ay: "\<bar>y\<bar> = float64 (Quantity a) * \<bar>Price a\<bar>"
    unfolding y_def using qa' by (simp add: abs_mult mult.commute)
  note st = entry_step_error[OF Q1 Cons.prems(5) Cons.prems(6) Cons.prems(7), of y]
  have v1: "OpenPrice pos1 * float64 (PosQuantity pos1)
      = round64 (round64 (round64 (OpenPrice pos * float64 (PosQuantity pos)) + round64 y)
                 / float64 (PosQuantity pos1)) * float64 (PosQuantity pos1)"
    unfolding p1 q1 y_def ..
  define eps1 where "eps1 = (1 + eps) * (1 + 1 / 2 ^ 53) ^ 3 - 1"
  have e1: "0 \<le> eps1" and ST1: "\<bar>S + y\<bar> \<le> T + \<bar>y\<bar>"
    and x1: "\<bar>OpenPrice pos1 * float64 (PosQuantity pos1) - (S + y)\<bar> \<le> eps1 * (T + \<bar>y\<bar>)"
    using st unfolding v1 eps1_def by simp_all
  have b1: "sint (PosQuantity pos1) + (\<Sum>x\<leftarrow>es. sint (Quantity x)) < 2 ^ 63" using bound s1 by simp
  note ih = Cons.IH[OF rest tes pos1_pos b1 e1 ST1 x1]
  have pw: "(1 + eps1) * ((1 + 1 / 2 ^ 53) ^ 3) ^ length es = (1 + eps) * ((1 + 1 / 2 ^ 53) ^ 3) ^ length (a # es)"
    unfolding eps1_def by simp
  have sums: "S + y + (\<Sum>x\<leftarrow>es. float64 (Quantity x) * Price x) = S + (\<Sum>x\<leftarrow>a # es. float64 (Quantity x) * Price x)"
    "T + \<bar>y\<bar> + (\<Sum>x\<leftarrow>es. float64 (Quantity x) * \<bar>Price x\<bar>) = T + (\<Sum>x\<leftarrow>a # es. float64 (Quantity x) * \<bar>Price x\<bar>)"
    unfolding ay by (simp_all add: y_def mult.commute)
  have qs: "sint (PosQuantity pos') = sint (PosQuantity pos) + (\<Sum>x\<leftarrow>a # es. sint (Quantity x))"
    using ih s1 by simp
  from ih have "\<bar>OpenPrice pos' * float64 (PosQuantity pos') - (S + y + (\<Sum>x\<leftarrow>es. float64 (Quantity x) * Price x))\<bar>
           \<le> ((1 + eps1) * ((1 + 1 / 2 ^ 53) ^ 3) ^ length es - 1)
               * (T + \<bar>y\<bar> + (\<Sum>x\<leftarrow>es. float64 (Quantity x) * \<bar>Price x\<bar>))" by simp
  then have "\<bar>OpenPrice pos' * float64 (PosQuantity pos') - (S + (\<Sum>x\<leftarrow>a # es. float64 (Quantity x) * Price x))\<bar>
           \<le> ((1 + eps) * ((1 + 1 / 2 ^ 53) ^ 3) ^ length (a # es) - 1)
               * (T + (\<Sum>x\<leftarrow>a # es. float64 (Quantity x) * \<bar>Price x\<bar>))"
    unfolding pw sums .
  with qs show ?case by blast
qed

lemma vwap_error:
  assumes new: "NewPosition e = Inr pos0"
    and run: "AddOrders pos0 es = (pos, length es)"
    and entries: "\<forall>x\<in>set es. Type x = Entry"
    and fits: "(\<Sum>x\<leftarrow>e # es. sint (Quantity x)) < 2 ^ 63"
  shows "\<bar>OpenPrice pos - (\<Sum>x\<leftarrow>e # es. float64 (Quantity x) * Price x) / (\<Sum>x\<leftarrow>e # es. float64 (Quantity x))\<bar>
           \<le> ((1 + 1 / 2 ^ 53) ^ (3 * length es) - 1)
               * ((\<Sum>x\<leftarrow>e # es. float64 (Quantity x) * \<bar>Price x\<bar>) / (\<Sum>x\<leftarrow>e # es. float64 (Quantity x)))"
proof -
  from NewPosition_Inr[OF new] have
    q0: "0 < sint (Quantity e)" and pq: "PosQuantity pos0 = Quantity e" and op: "OpenPrice pos0 = Price e"
    by simp_all
  define S0 where "S0 = float64 (Quantity e) * Price e"
  define T0 where "T0 = float64 (Quantity e) * \<bar>Price e\<bar>"
  have f0: "0 < float64 (Quantity e)" using q0 by (rule float64_pos)
  have qpos: "0 < sint (PosQuantity pos0)" using q0 pq by simp
  have b: "sint (PosQuantity pos0) + (\<Sum>x\<leftarrow>es. sint (Quantity x)) < 2 ^ 63"
    using fits pq by simp
  have ST: "\<bar>S0\<bar> \<le> T0" unfolding S0_def T0_def using f0 by (simp add: abs_mult)
  have i: "\<bar>OpenPrice pos0 * float64 (PosQuantity pos0) - S0\<bar> \<le> 0 * T0"
    unfolding S0_def op pq by (simp add: mult.commute)
  note r = entry_run_error[OF run entries qpos b order_refl ST i]
  define Qs where "Qs = (\<Sum>x\<leftarrow>e # es. float64 (Quantity x))"
  define Ss where "Ss = (\<Sum>x\<leftarrow>e # es. float64 (Quantity x) * Price x)"
  define Ts where "Ts = (\<Sum>x\<leftarrow>e # es. float64 (Quantity x) * \<bar>Price x\<bar>)"
  define g :: real where "g = (1 + 1 / 2 ^ 53) ^ (3 * length es) - 1"
  have "sint (PosQuantity pos) = (\<Sum>x\<leftarrow>e # es. sint (Quantity x))" using r pq by simp
  then have fq: "float64 (PosQuantity pos) = Qs"
    unfolding Qs_def sum_list_float64 by (rule float64_of_sint)
  have nonneg: "0 \<le> (\<Sum>x\<leftarrow>es. sint (Quantity x))"
    using AddOrders_accepted_quantities[OF run] by (rule sum_list_sint_nonneg)
  have "0 < (\<Sum>x\<leftarrow>e # es. sint (Quantity x))" using q0 nonneg by simp
  then have Qpos: "0 < Qs" unfolding Qs_def sum_list_float64 by (simp only: of_int_0_less_iff)
  have pw: "(1 + 0) * ((1 + 1 / 2 ^ 53) ^ 3) ^ length es - 1 = g"
    unfolding g_def by (simp add: power_mult)
  have "S0 + (\<Sum>x\<leftarrow>es. float64 (Quantity x) * Price x) = Ss"
    "T0 + (\<Sum>x\<leftarrow>es. float64 (Quantity x) * \<bar>Price x\<bar>) = Ts"
    unfolding S0_def T0_def Ss_def Ts_def by simp_all
  with r fq pw have main: "\<bar>OpenPrice pos * Qs - Ss\<bar> \<le> g * Ts" by simp
  have "OpenPrice pos - Ss / Qs = (OpenPrice pos * Qs - Ss) / Qs" using Qpos by (simp add: field_simps)
  then have "\<bar>OpenPrice pos - Ss / Qs\<bar> = \<bar>OpenPrice pos * Qs - Ss\<bar> / Qs" using Qpos by (simp add: abs_mult)
  also have "\<dots> \<le> g * Ts / Qs" using main Qpos by (simp add: divide_right_mono)
  finally show ?thesis unfolding Qs_def Ss_def Ts_def g_def by simp
qed

text \<open>
  The roundings that occur on the concrete entries. The second lemma has those of the
  reverse order as evaluation meets them, with the powers \<open>2\<^sup>4\<^sup>8\<close>, \<open>2\<^sup>5\<^sup>0\<close> and \<open>2\<^sup>5\<^sup>1\<close> written
  out: seven times the rounded quotient \<open>29 / 7\<close> is \<open>29 + 3 / 2\<^sup>5\<^sup>0\<close> and rounds to
  \<open>29 + 1 / 2\<^sup>4\<^sup>8\<close>; one more is \<open>30 + 1 / 2\<^sup>4\<^sup>8\<close>, and the eighth of it is
  \<open>15 / 4 + 1 / 2\<^sup>5\<^sup>1\<close>, both without rounding.
\<close>

lemma round64_values:
  "round64 1 = 1" "round64 9 = 9" "round64 10 = 10" "round64 20 = 20" "round64 29 = 29"
  "round64 30 = 30" "round64 (5 / 2) = 5 / 2" "round64 (15 / 4) = 15 / 4" "round64 (- 1) = - 1"
  "round64 9223372036854775808 = 9223372036854775808"
  "round64 9223372036854775807 = 9223372036854775808"
  "round64 9223372036854775809 = 9223372036854775808"
  "round64 (29 / 7) = 4664442471205157 / 2 ^ 50"
  "round64 (4664442471205157 * 7 / 2 ^ 50) = 29 + 1 / 2 ^ 48"
  "round64 (30 + 1 / 2 ^ 48) = 30 + 1 / 2 ^ 48"
  "round64 (15 / 4 + 1 / 2 ^ 51) = 15 / 4 + 1 / 2 ^ 51"
proof -
  show "round64 1 = 1" by (subst round64_at[of 0]) (simp_all add: roundTiesToEven_def Let_def)
  show "round64 9 = 9" by (subst round64_at[of 3]) (simp_all add: roundTiesToEven_def Let_def)
  show "round64 10 = 10" by (subst round64_at[of 3]) (simp_all add: roundTiesToEven_def Let_def)
  show "round64 20 = 20" by (subst round64_at[of 4]) (simp_all add: roundTiesToEven_def Let_def)
  show "round64 29 = 29" by (subst round64_at[of 4]) (simp_all add: roundTiesToEven_def Let_def)
  show "round64 30 = 30" by (subst round64_at[of 4]) (simp_all add: roundTiesToEven_def Let_def)
  show "round64 (5 / 2) = 5 / 2" by (subst round64_at[of 1]) (simp_all add: roundTiesToEven_def Let_def)
  show "round64 (15 / 4) = 15 / 4" by (subst round64_at[of 1]) (simp_all add: roundTiesToEven_def Let_def)
  show "round64 (- 1) = - 1" by (subst round64_at[of 0]) (simp_all add: roundTiesToEven_def Let_def)
  show "round64 9223372036854775808 = 9223372036854775808"
    by (subst round64_at[of 63]) (simp_all add: roundTiesToEven_def Let_def)
  show "round64 9223372036854775807 = 9223372036854775808"
    by (subst round64_at[of 62]) (simp_all add: roundTiesToEven_def Let_def)
  show "round64 9223372036854775809 = 9223372036854775808"
    by (subst round64_at[of 63]) (simp_all add: roundTiesToEven_def Let_def)
  show "round64 (29 / 7) = 4664442471205157 / 2 ^ 50"
    by (subst round64_at[of 2]) (simp_all add: roundTiesToEven_def Let_def)
  show "round64 (4664442471205157 * 7 / 2 ^ 50) = 29 + 1 / 2 ^ 48"
    by (subst round64_at[of 4]) (simp_all add: roundTiesToEven_def Let_def)
  show "round64 (30 + 1 / 2 ^ 48) = 30 + 1 / 2 ^ 48"
    by (subst round64_at[of 4]) (simp_all add: roundTiesToEven_def Let_def)
  show "round64 (15 / 4 + 1 / 2 ^ 51) = 15 / 4 + 1 / 2 ^ 51"
    by (subst round64_at[of 1]) (simp_all add: roundTiesToEven_def Let_def)
qed

lemma round64_values_backward:
  "round64 (32651097298436099 / 1125899906842624) = 8162774324609025 / 281474976710656"
  "round64 (8444249301319681 / 281474976710656) = 8444249301319681 / 281474976710656"
  "round64 (8444249301319681 / 2251799813685248) = 8444249301319681 / 2251799813685248"
proof -
  show "round64 (32651097298436099 / 1125899906842624) = 8162774324609025 / 281474976710656"
    by (subst round64_at[of 4]) (simp_all add: roundTiesToEven_def Let_def)
  show "round64 (8444249301319681 / 281474976710656) = 8444249301319681 / 281474976710656"
    by (subst round64_at[of 4]) (simp_all add: roundTiesToEven_def Let_def)
  show "round64 (8444249301319681 / 2251799813685248) = 8444249301319681 / 2251799813685248"
    by (subst round64_at[of 1]) (simp_all add: roundTiesToEven_def Let_def)
qed

text \<open>
  Claim C3, as stated, fails, in two ways. The running average is computed in \<^verbatim>\<open>float64\<close>
  and rounds at every entry, so it is neither exact nor independent of the order of the
  entries: the entries 1 at price 1, 3 at price 3 and 4 at price 5 leave the open price at
  \<open>3.75\<close>, which is their volume-weighted average \<open>30 / 8\<close>, when they arrive in this
  order, and at \<open>3.75 + 2\<^sup>-\<^sup>5\<^sup>1\<close> (printed as 3.7500000000000004) when they arrive in the
  reverse order, where the quotient \<open>29 / 7\<close> of the second entry is rounded. And when
  the quantities of the entries add up to more than the largest \<^verbatim>\<open>int\<close>, the position's
  quantity wraps around: an entry of \<open>2\<^sup>6\<^sup>3 - 1\<close> at price 1 followed by an entry of 1 at
  price 1 is accepted and leaves the open price at \<open>-1\<close>, while the volume-weighted
  average of the two entries is 1.
\<close>

theorem vwap_rounding_counterexample:
  "map_sum id (\<lambda>pos0. map_prod OpenPrice id (AddOrders pos0 [c3_three, c3_four])) (NewPosition c3_one) = Inr (15 / 4, 2)
   \<and> map_sum id (\<lambda>pos0. map_prod OpenPrice id (AddOrders pos0 [c3_three, c3_one])) (NewPosition c3_four) = Inr (15 / 4 + 1 / 2 ^ 51, 2)
   \<and> (\<Sum>x\<leftarrow>[c3_four, c3_three, c3_one]. float64 (Quantity x) * Price x) / (\<Sum>x\<leftarrow>[c3_four, c3_three, c3_one]. float64 (Quantity x)) = 15 / 4
   \<and> map_sum id (\<lambda>pos0. map_prod OpenPrice id (AddOrders pos0 [c3_second])) (NewPosition c3_first) = Inr (- 1, 1)
   \<and> (\<Sum>x\<leftarrow>[c3_first, c3_second]. float64 (Quantity x) * Price x) / (\<Sum>x\<leftarrow>[c3_first, c3_second]. float64 (Quantity x)) = 1"
proof -
  have "map_sum id (\<lambda>pos0. map_prod OpenPrice id (AddOrders pos0 [c3_three, c3_four])) (NewPosition c3_one) = Inr (15 / 4, 2)"
    by (simp add: NewPosition_def AddOrder_def c3_one_def c3_three_def c3_four_def float64_def Let_def
        round64_values)
  moreover have "map_sum id (\<lambda>pos0. map_prod OpenPrice id (AddOrders pos0 [c3_three, c3_one])) (NewPosition c3_four) = Inr (15 / 4 + 1 / 2 ^ 51, 2)"
    by (simp add: NewPosition_def AddOrder_def c3_one_def c3_three_def c3_four_def float64_def Let_def
        round64_values round64_values_backward)
  moreover have "(\<Sum>x\<leftarrow>[c3_four, c3_three, c3_one]. float64 (Quantity x) * Price x) / (\<Sum>x\<leftarrow>[c3_four, c3_three, c3_one]. float64 (Quantity x)) = 15 / 4"
    by (simp add: c3_one_def c3_three_def c3_four_def float64_def)
  moreover have "map_sum id (\<lambda>pos0. map_prod OpenPrice id (AddOrders pos0 [c3_second])) (NewPosition c3_first) = Inr (- 1, 1)"
    by (simp add: NewPosition_def AddOrder_def c3_first_def c3_second_def float64_def Let_def
        round64_values)
  moreover have "(\<Sum>x\<leftarrow>[c3_first, c3_second]. float64 (Quantity x) * Price x) / (\<Sum>x\<leftarrow>[c3_first, c3_second]. float64 (Quantity x)) = 1"
    by (simp add: c3_first_def c3_second_def float64_def)
  ultimately show ?thesis by blast
qed

text \<open>
  Claim C3, amended: for a position created by \<^verbatim>\<open>NewPosition\<close> from an entry order and any
  list of \<open>n\<close> entry orders that \<^verbatim>\<open>AddOrder\<close> then accepts, as long as the quantities of
  all these entries add up to at most \<open>2\<^sup>5\<^sup>3\<close> (up to which an \<^verbatim>\<open>int\<close> is converted to
  \<^verbatim>\<open>float64\<close> without rounding, and far below the wrap-around of the quantity) and every
  price lies between \<open>2\<^sup>-\<^sup>5\<^sup>0\<^sup>0\<close> and \<open>2\<^sup>5\<^sup>0\<^sup>0\<close> (a range in which every result of the running
  average stays between \<open>2\<^sup>-\<^sup>1\<^sup>0\<^sup>2\<^sup>2\<close> and \<open>2\<^sup>1\<^sup>0\<^sup>2\<^sup>4\<close>, the normal numbers of a \<^verbatim>\<open>float64\<close>, where
  \<open>round64\<close> is the rounding of the machine), the open price is the sum of quantity times price over the sum
  of the quantities up to a relative error of \<open>(1 + 2\<^sup>-\<^sup>5\<^sup>3)\<^sup>3\<^sup>n - 1\<close>, which is about
  \<open>3n \<sqdot> 2\<^sup>-\<^sup>5\<^sup>3\<close>; and the same entries applied in any other order give an open price that
  differs by at most twice this fraction of the volume-weighted average. The open price
  is the exact average only up to this rounding, and it can depend on the order.
\<close>

theorem vwap_rounding_bound:
  assumes new: "NewPosition e = Inr pos0"
    and run: "AddOrders pos0 es = (pos, length es)"
    and entries: "\<forall>x\<in>set es. Type x = Entry"
    and fits: "(\<Sum>x\<leftarrow>e # es. sint (Quantity x)) \<le> 2 ^ 53"
    and prices: "\<forall>x\<in>set (e # es). 1 / 2 ^ 500 \<le> Price x \<and> Price x \<le> 2 ^ 500"
    and new': "NewPosition e' = Inr pos0'"
    and run': "AddOrders pos0' es' = (pos', length es')"
    and perm: "mset (e' # es') = mset (e # es)"
  shows "\<bar>OpenPrice pos - (\<Sum>x\<leftarrow>e # es. float64 (Quantity x) * Price x) / (\<Sum>x\<leftarrow>e # es. float64 (Quantity x))\<bar>
           \<le> ((1 + 1 / 2 ^ 53) ^ (3 * length es) - 1)
               * ((\<Sum>x\<leftarrow>e # es. float64 (Quantity x) * Price x) / (\<Sum>x\<leftarrow>e # es. float64 (Quantity x)))
       \<and> \<bar>OpenPrice pos' - OpenPrice pos\<bar>
           \<le> 2 * ((1 + 1 / 2 ^ 53) ^ (3 * length es) - 1)
               * ((\<Sum>x\<leftarrow>e # es. float64 (Quantity x) * Price x) / (\<Sum>x\<leftarrow>e # es. float64 (Quantity x)))"
proof -
  have sums: "(\<Sum>x\<leftarrow>e' # es'. f x) = (\<Sum>x\<leftarrow>e # es. f x)" for f :: "Order \<Rightarrow> 'b::comm_monoid_add"
  proof -
    have "mset (map f (e' # es')) = mset (map f (e # es))"
      using perm by (metis mset_map)
    then show ?thesis by (metis sum_mset_sum_list)
  qed
  have "set (e' # es') = set (e # es)" using perm by (metis set_mset_mset)
  moreover have "Type e = Entry" using NewPosition_Inr[OF new] by simp
  ultimately have entries': "\<forall>x\<in>set es'. Type x = Entry" using entries by auto
  have "length (e' # es') = length (e # es)" using perm by (metis size_mset)
  then have len: "length es' = length es" by simp
  have fits1: "(\<Sum>x\<leftarrow>e # es. sint (Quantity x)) < 2 ^ 63" using fits by simp
  have fits1': "(\<Sum>x\<leftarrow>e' # es'. sint (Quantity x)) < 2 ^ 63"
    using fits1 sums[of "\<lambda>x. sint (Quantity x)"] by simp
  have "\<forall>x\<in>set (e # es). \<bar>Price x\<bar> = Price x"
  proof
    fix x assume "x \<in> set (e # es)"
    with prices have "1 / 2 ^ 500 \<le> Price x" by blast
    moreover have "(0::real) < 1 / 2 ^ 500" by simp
    ultimately show "\<bar>Price x\<bar> = Price x" by linarith
  qed
  then have "map (\<lambda>x. float64 (Quantity x) * \<bar>Price x\<bar>) (e # es) = map (\<lambda>x. float64 (Quantity x) * Price x) (e # es)"
    by (intro map_cong) auto
  then have absp: "(\<Sum>x\<leftarrow>e # es. float64 (Quantity x) * \<bar>Price x\<bar>) = (\<Sum>x\<leftarrow>e # es. float64 (Quantity x) * Price x)"
    by (simp only:)
  define V where "V = (\<Sum>x\<leftarrow>e # es. float64 (Quantity x) * Price x) / (\<Sum>x\<leftarrow>e # es. float64 (Quantity x))"
  define g :: real where "g = (1 + 1 / 2 ^ 53) ^ (3 * length es) - 1"
  have a: "\<bar>OpenPrice pos - V\<bar> \<le> g * V"
    using vwap_error[OF new run entries fits1] unfolding absp V_def g_def .
  have b: "\<bar>OpenPrice pos' - V\<bar> \<le> g * V"
    using vwap_error[OF new' run' entries' fits1']
    unfolding sums[of "\<lambda>x. float64 (Quantity x) * \<bar>Price x\<bar>"] sums[of "\<lambda>x. float64 (Quantity x) * Price x"]
      sums[of "\<lambda>x. float64 (Quantity x)"] len absp V_def g_def .
  have "\<bar>OpenPrice pos' - OpenPrice pos\<bar> \<le> \<bar>OpenPrice pos' - V\<bar> + \<bar>OpenPrice pos - V\<bar>" by linarith
  with a b have "\<bar>OpenPrice pos' - OpenPrice pos\<bar> \<le> 2 * g * V" by linarith
  with a show ?thesis unfolding V_def g_def by blast
qed

theorem vwap_rounding_bound_witness:
  "NewPosition c3_four = Inr c3_pos_four \<and> NewPosition c3_one = Inr c3_pos_one
   \<and> AddOrders c3_pos_four [c3_three, c3_one] = (fst (AddOrders c3_pos_four [c3_three, c3_one]), length [c3_three, c3_one])
   \<and> AddOrders c3_pos_one [c3_three, c3_four] = (fst (AddOrders c3_pos_one [c3_three, c3_four]), length [c3_three, c3_four])
   \<and> \<bar>OpenPrice (fst (AddOrders c3_pos_four [c3_three, c3_one])) - 15 / 4\<bar> \<le> ((1 + 1 / 2 ^ 53) ^ 6 - 1) * (15 / 4)
   \<and> \<bar>OpenPrice (fst (AddOrders c3_pos_one [c3_three, c3_four])) - OpenPrice (fst (AddOrders c3_pos_four [c3_three, c3_one]))\<bar>
        \<le> 2 * ((1 + 1 / 2 ^ 53) ^ 6 - 1) * (15 / 4)"
proof -
  have new: "NewPosition c3_four = Inr c3_pos_four"
    by (simp add: c3_pos_four_def NewPosition_def c3_four_def Let_def)
  have new': "NewPosition c3_one = Inr c3_pos_one"
    by (simp add: c3_pos_one_def NewPosition_def c3_one_def Let_def)
  have run: "AddOrders c3_pos_four [c3_three, c3_one] = (fst (AddOrders c3_pos_four [c3_three, c3_one]), length [c3_three, c3_one])"
    by (simp add: c3_pos_four_def NewPosition_def AddOrder_def c3_one_def c3_three_def c3_four_def Let_def)
  have run': "AddOrders c3_pos_one [c3_three, c3_four] = (fst (AddOrders c3_pos_one [c3_three, c3_four]), length [c3_three, c3_four])"
    by (simp add: c3_pos_one_def NewPosition_def AddOrder_def c3_one_def c3_three_def c3_four_def Let_def)
  have entries: "\<forall>x\<in>set [c3_three, c3_one]. Type x = Entry" by (simp add: c3_three_def c3_one_def)
  have fits: "(\<Sum>x\<leftarrow>c3_four # [c3_three, c3_one]. sint (Quantity x)) \<le> 2 ^ 53"
    by (simp add: c3_one_def c3_three_def c3_four_def)
  have prices: "\<forall>x\<in>set (c3_four # [c3_three, c3_one]). 1 / 2 ^ 500 \<le> Price x \<and> Price x \<le> 2 ^ 500"
    by (simp add: c3_one_def c3_three_def c3_four_def)
  have perm: "mset (c3_one # [c3_three, c3_four]) = mset (c3_four # [c3_three, c3_one])" by simp
  have val: "(\<Sum>x\<leftarrow>c3_four # [c3_three, c3_one]. float64 (Quantity x) * Price x) / (\<Sum>x\<leftarrow>c3_four # [c3_three, c3_one]. float64 (Quantity x)) = 15 / 4"
    by (simp add: c3_one_def c3_three_def c3_four_def float64_def)
  have len: "3 * length [c3_three, c3_one] = 6" by simp
  from vwap_rounding_bound[OF new run entries fits prices new' run' perm]
  have "\<bar>OpenPrice (fst (AddOrders c3_pos_four [c3_three, c3_one])) - 15 / 4\<bar> \<le> ((1 + 1 / 2 ^ 53) ^ 6 - 1) * (15 / 4)"
    and "\<bar>OpenPrice (fst (AddOrders c3_pos_one [c3_three, c3_four])) - OpenPrice (fst (AddOrders c3_pos_four [c3_three, c3_one]))\<bar>
        \<le> 2 * ((1 + 1 / 2 ^ 53) ^ 6 - 1) * (15 / 4)"
    unfolding val len by blast+
  with new new' run run' show ?thesis by blast
qed

section \<open>Realized profit and loss\<close>

text \<open>
  Claim C4: a long position opened at 100 with quantity 10 and leverage 2, fully exited at
  110, has a realized PnL of \<open>10 * (110 - 100) * 2 = 200\<close>; a short position opened at 100
  with quantity 10 and leverage 1, fully exited at 90, has \<open>10 * (100 - 90) * 1 = 100\<close>.
  This holds for every instrument, and whatever side and leverage the exit order carries.
\<close>

theorem realized_pnl_convention:
  "(case NewPosition \<lparr>Instrument = i, Side = Long, Type = Entry, Quantity = 10, Price = 100, Leverage = 2\<rparr> of
      Inl e \<Rightarrow> False
    | Inr pos \<Rightarrow>
        AddOrder pos \<lparr>Instrument = i, Side = s, Type = Exit, Quantity = 10, Price = 110, Leverage = l\<rparr>
          = (None, pos\<lparr>PosQuantity := 0, Status := Closed, ClosePrice := 110, RealizedPnL := 200,
                      Orders := Orders pos @ [\<lparr>Instrument = i, Side = s, Type = Exit, Quantity = 10,
                                                Price = 110, Leverage = l\<rparr>]\<rparr>))
   \<and> (case NewPosition \<lparr>Instrument = i, Side = Short, Type = Entry, Quantity = 10, Price = 100, Leverage = 1\<rparr> of
      Inl e \<Rightarrow> False
    | Inr pos \<Rightarrow>
        AddOrder pos \<lparr>Instrument = i, Side = s, Type = Exit, Quantity = 10, Price = 90, Leverage = l\<rparr>
          = (None, pos\<lparr>PosQuantity := 0, Status := Closed, ClosePrice := 90, RealizedPnL := 100,
                      Orders := Orders pos @ [\<lparr>Instrument = i, Side = s, Type = Exit, Quantity = 10,
                                                Price = 90, Leverage = l\<rparr>]\<rparr>))"
  by (simp add: NewPosition_def AddOrder_def float64_def Let_def)

section \<open>The order history of a position\<close>

text \<open>
  Claim C10, as stated, fails in one detail: the second element of the history is the
  entry order after \<^verbatim>\<open>NewPosition\<close> has raised a leverage of at most 1 to 1, which is not
  the order that was passed in when that order has a leverage below 1, such as the 0 of a
  struct literal that sets none.
\<close>

theorem order_history_dummy_counterexample:
  "map_sum id (\<lambda>pos. (length (Orders pos), Orders pos ! 1 = c10_entry, Leverage (Orders pos ! 1)))
     (NewPosition c10_entry) = Inr (2, False, 1)"
  by (simp add: NewPosition_def c10_entry_def Let_def)

text \<open>
  Claim C10, amended: the order history of a position returned by \<^verbatim>\<open>NewPosition\<close> has
  length 2; its first element is the zero-valued order (empty instrument, quantity 0,
  price 0) and its second the entry order with its leverage raised to 1 if it was at most
  1, hence the entry order itself when its leverage is at least 1. After any list of
  further orders, of which \<open>n\<close> were accepted, the history has \<open>(n + 1) + 1\<close> elements:
  one more than the orders accepted, the entry included.
\<close>

theorem order_history_dummy:
  assumes "NewPosition e = Inr pos0" and "AddOrders pos0 es = (pos, n)"
  shows "Orders pos0 = [zero_Order, e\<lparr>Leverage := (if Leverage e \<le> 1 then 1 else Leverage e)\<rparr>]
       \<and> Instrument (Orders pos0 ! 0) = [] \<and> Quantity (Orders pos0 ! 0) = 0 \<and> Price (Orders pos0 ! 0) = 0
       \<and> (1 \<le> Leverage e \<longrightarrow> Orders pos0 ! 1 = e)
       \<and> length (Orders pos) = Suc n + 1"
proof -
  from NewPosition_Inr[OF assms(1)]
  have o: "Orders pos0 = [zero_Order, e\<lparr>Leverage := (if Leverage e \<le> 1 then 1 else Leverage e)\<rparr>]"
    by simp
  have z: "Instrument (Orders pos0 ! 0) = [] \<and> Quantity (Orders pos0 ! 0) = 0 \<and> Price (Orders pos0 ! 0) = 0"
    using o by (simp add: zero_Order_def)
  have s: "1 \<le> Leverage e \<longrightarrow> Orders pos0 ! 1 = e"
  proof
    assume "1 \<le> Leverage e"
    then have "e\<lparr>Leverage := (if Leverage e \<le> 1 then 1 else Leverage e)\<rparr> = e" by auto
    with o show "Orders pos0 ! 1 = e" by simp
  qed
  have l: "length (Orders pos) = Suc n + 1"
    using AddOrders_history[OF assms(2)] o by simp
  from o z s l show ?thesis by blast
qed

theorem order_history_dummy_witness:
  "NewPosition c10_geared = Inr c10_position
   \<and> AddOrders c10_position c10_orders = (fst (AddOrders c10_position c10_orders), 2)
   \<and> Orders c10_position = [zero_Order, c10_geared]
   \<and> length (Orders (fst (AddOrders c10_position c10_orders))) = 4"
proof -
  have new: "NewPosition c10_geared = Inr c10_position"
    by (simp add: c10_position_def NewPosition_def c10_geared_def Let_def)
  have run: "AddOrders c10_position c10_orders = (fst (AddOrders c10_position c10_orders), 2)"
    by (simp add: c10_position_def NewPosition_def AddOrder_def c10_geared_def c10_orders_def Let_def)
  have lev: "1 \<le> Leverage c10_geared" by (simp add: c10_geared_def)
  from order_history_dummy[OF new run] lev
  have "Orders c10_position = [zero_Order, c10_geared]"
    and "length (Orders (fst (AddOrders c10_position c10_orders))) = 4"
    by (simp_all add: c10_geared_def)
  with new run show ?thesis by blast
qed

section \<open>Rejected orders leave the portfolio as it was\<close>

lemma handleEntryOrder_error_unchanged:
  assumes "handleEntryOrder p x = (Some e, p')"
  shows "p' = p"
proof (cases "map_of (openPositions p) (Instrument x)")
  case None
  with assms show ?thesis
    by (auto simp: handleEntryOrder_def Let_def split: sum.splits)
next
  case (Some pos)
  obtain err pos' where a: "AddOrder pos x = (err, pos')" by (cases "AddOrder pos x")
  show ?thesis
  proof (cases err)
    case None
    with assms Some a show ?thesis by (simp add: handleEntryOrder_def Let_def)
  next
    case (Some e')
    with a have "pos' = pos" using AddOrder_error_unchanged by blast
    moreover have "AList.update (Instrument x) pos (openPositions p) = openPositions p"
      using \<open>map_of (openPositions p) (Instrument x) = Some pos\<close> by (rule update_triv)
    ultimately show ?thesis
      using assms \<open>map_of (openPositions p) (Instrument x) = Some pos\<close> a Some
      by (simp add: handleEntryOrder_def Let_def)
  qed
qed

lemma handleExitOrder_error_unchanged:
  assumes "handleExitOrder p x = (Some e, p')"
  shows "p' = p"
proof (cases "map_of (openPositions p) (Instrument x)")
  case None
  with assms show ?thesis by (simp add: handleExitOrder_def)
next
  case (Some pos)
  obtain err pos' where a: "AddOrder pos x = (err, pos')" by (cases "AddOrder pos x")
  show ?thesis
  proof (cases err)
    case None
    with assms Some a show ?thesis by (simp add: handleExitOrder_def Let_def)
  next
    case (Some e')
    with a have "pos' = pos" using AddOrder_error_unchanged by blast
    moreover have "AList.update (Instrument x) pos (openPositions p) = openPositions p"
      using \<open>map_of (openPositions p) (Instrument x) = Some pos\<close> by (rule update_triv)
    ultimately show ?thesis
      using assms \<open>map_of (openPositions p) (Instrument x) = Some pos\<close> a Some
      by (simp add: handleExitOrder_def Let_def)
  qed
qed

lemma ProcessOrder_error_unchanged:
  assumes "ProcessOrder p x = (Some e, p')"
  shows "p' = p"
proof (cases "validateOrder p x")
  case None
  with assms show ?thesis
    by (cases "Type x")
       (auto simp: ProcessOrder_def dest: handleEntryOrder_error_unchanged handleExitOrder_error_unchanged)
next
  case (Some a)
  with assms show ?thesis by (simp add: ProcessOrder_def)
qed

lemma handleEntryOrder_not_InsufficientCash: "fst (handleEntryOrder p x) \<noteq> Some InsufficientCash"
  by (auto simp: handleEntryOrder_def Let_def NewPosition_def AddOrder_def
      split: option.splits sum.splits prod.splits if_splits OrderType.splits)

text \<open>
  Claim C2, as stated, fails: the amount compared with the cash is divided by the order's
  leverage only for a long order on a portfolio whose default leverage is set. On a
  portfolio with 600 in cash and no default leverage, a long entry of 10 at 100 with
  leverage 2 is rejected for insufficient cash although \<open>10 * 100 / 2 = 500\<close> does not
  exceed 600.
\<close>

theorem insufficient_cash_gate_counterexample:
  "ProcessOrder c2_portfolio c2_order = (Some InsufficientCash, c2_portfolio)
   \<and> \<not> float64 (Quantity c2_order) * Price c2_order / Leverage c2_order > cash c2_portfolio"
  by (simp add: ProcessOrder_def validateOrder_def c2_portfolio_def c2_order_def Portfolio_New_def
      Fill_def NewOrder_def float64_def Let_def)

text \<open>
  Claim C2, amended: \<^verbatim>\<open>ProcessOrder\<close> rejects an entry order for insufficient cash exactly
  when the order is not a short that the portfolio refuses, and the required cash exceeds
  the portfolio's cash, where the required cash is quantity times price, divided by the
  order's leverage if the order is long, the default leverage is positive and the order's
  leverage is positive; divided by the default leverage if the order is long, the default
  leverage is positive and the order's leverage is not; and undivided otherwise. Whenever
  \<^verbatim>\<open>ProcessOrder\<close> returns an error for an entry order, the portfolio (cash, open and
  closed positions, order history) is what it was before the call.
\<close>

theorem insufficient_cash_gate:
  assumes "Type x = Entry"
  shows "(fst (ProcessOrder p x) = Some InsufficientCash \<longleftrightarrow>
            (EnableShorts (settings p) \<or> Side x = Long)
            \<and> (if Side x = Long \<and> 0 < DefaultLeverage (settings p) \<and> 0 < Leverage x
                then float64 (Quantity x) * Price x / Leverage x
                else if Side x = Long \<and> 0 < DefaultLeverage (settings p)
                then float64 (Quantity x) * Price x / DefaultLeverage (settings p)
                else float64 (Quantity x) * Price x) > cash p)
       \<and> (fst (ProcessOrder p x) \<noteq> None \<longrightarrow> snd (ProcessOrder p x) = p)"
proof -
  have atomic: "fst (ProcessOrder p x) \<noteq> None \<longrightarrow> snd (ProcessOrder p x) = p"
  proof
    assume "fst (ProcessOrder p x) \<noteq> None"
    then obtain e where "ProcessOrder p x = (Some e, snd (ProcessOrder p x))"
      by (cases "ProcessOrder p x") auto
    then show "snd (ProcessOrder p x) = p" by (rule ProcessOrder_error_unchanged)
  qed
  have side: "Side x = Long \<or> Side x = Short" by (cases "Side x") simp_all
  have gate: "fst (ProcessOrder p x) = Some InsufficientCash \<longleftrightarrow>
            (EnableShorts (settings p) \<or> Side x = Long)
            \<and> (if Side x = Long \<and> 0 < DefaultLeverage (settings p) \<and> 0 < Leverage x
                then float64 (Quantity x) * Price x / Leverage x
                else if Side x = Long \<and> 0 < DefaultLeverage (settings p)
                then float64 (Quantity x) * Price x / DefaultLeverage (settings p)
                else float64 (Quantity x) * Price x) > cash p"
    using assms handleEntryOrder_not_InsufficientCash[of p x] side
    by (auto simp: ProcessOrder_def validateOrder_def Let_def split: option.splits)
  from gate atomic show ?thesis by blast
qed

theorem insufficient_cash_gate_witness:
  "Type c2_order = Entry
   \<and> fst (ProcessOrder c2_geared c2_order) = Some InsufficientCash
   \<and> snd (ProcessOrder c2_geared c2_order) = c2_geared"
proof -
  have t: "Type c2_order = Entry" by (simp add: c2_order_def Fill_def NewOrder_def)
  note gate = insufficient_cash_gate[OF t, of c2_geared]
  have over: "(EnableShorts (settings c2_geared) \<or> Side c2_order = Long)
            \<and> (if Side c2_order = Long \<and> 0 < DefaultLeverage (settings c2_geared) \<and> 0 < Leverage c2_order
                then float64 (Quantity c2_order) * Price c2_order / Leverage c2_order
                else if Side c2_order = Long \<and> 0 < DefaultLeverage (settings c2_geared)
                then float64 (Quantity c2_order) * Price c2_order / DefaultLeverage (settings c2_geared)
                else float64 (Quantity c2_order) * Price c2_order) > cash c2_geared"
    by (simp add: c2_geared_def c2_order_def Portfolio_New_def Fill_def NewOrder_def float64_def)
  from gate over have f: "fst (ProcessOrder c2_geared c2_order) = Some InsufficientCash" by blast
  with gate have "snd (ProcessOrder c2_geared c2_order) = c2_geared" by simp
  with t f show ?thesis by blast
qed

section \<open>The end-to-end scenario\<close>

lemma c1_entry_run:
  "ProcessOrder (Portfolio_New c1_settings) c1_entry =
     (None, \<lparr>cash = 9000,
             openPositions = [(''AAPL'',
               \<lparr>PosInstrument = ''AAPL'', PosSide = Long, PosQuantity = 10, OpenPrice = 100, ClosePrice = 0,
                Status = Open, Orders = [zero_Order, c1_entry], PosLeverage = 1, StopLoss = 0, TakeProfit = 0,
                MaxDrawdown = 0, HighestPrice = 0, LowestPrice = 0, UnrealizedPnL = 0, RealizedPnL = 0,
                TrailingStopHigh = 100\<rparr>)],
             closedPositions = [], orderHistory = [c1_entry], settings = c1_settings\<rparr>)"
  by (simp add: ProcessOrder_def validateOrder_def handleEntryOrder_def NewPosition_def Portfolio_New_def
      c1_settings_def c1_entry_def Fill_def NewOrder_def float64_def Let_def)

lemma c1_marked_eq:
  "c1_marked = \<lparr>cash = 9000,
             openPositions = [(''AAPL'',
               \<lparr>PosInstrument = ''AAPL'', PosSide = Long, PosQuantity = 10, OpenPrice = 100, ClosePrice = 0,
                Status = Open, Orders = [zero_Order, c1_entry], PosLeverage = 1, StopLoss = 0, TakeProfit = 0,
                MaxDrawdown = 0, HighestPrice = 120, LowestPrice = 120, UnrealizedPnL = 200, RealizedPnL = 0,
                TrailingStopHigh = 100\<rparr>)],
             closedPositions = [], orderHistory = [c1_entry], settings = c1_settings\<rparr>"
  by (simp add: c1_marked_def c1_entered_def c1_entry_run UpdatePositions_def updatePosition_def UpdatePrice_def
       float64_def Let_def)

lemma c1_exit_run:
  "ProcessOrder c1_marked c1_exit =
     (None, \<lparr>cash = 10200,
             openPositions = [],
             closedPositions = [
               \<lparr>PosInstrument = ''AAPL'', PosSide = Long, PosQuantity = 0, OpenPrice = 100, ClosePrice = 120,
                Status = Closed, Orders = [zero_Order, c1_entry, c1_exit], PosLeverage = 1, StopLoss = 0, TakeProfit = 0,
                MaxDrawdown = 0, HighestPrice = 120, LowestPrice = 120, UnrealizedPnL = 200, RealizedPnL = 200,
                TrailingStopHigh = 100\<rparr>], orderHistory = [c1_entry, c1_exit], settings = c1_settings\<rparr>)"
  unfolding c1_marked_eq
  by (simp add: ProcessOrder_def validateOrder_def handleExitOrder_def AddOrder_def
      c1_exit_def Fill_def NewOrder_def float64_def Let_def)

text \<open>
  Claim C1: from a portfolio with 10000 in cash, no default leverage and no risk limits,
  the entry order (long AAPL, 10 at 100) is accepted and leaves 9000 in cash; marking
  AAPL at 120 makes the position's unrealized PnL 200; the exit order (10 at 120) is
  accepted and leaves 10200 in cash, no open position, AAPL's position in the closed list
  with status \<open>Closed\<close> and a realized PnL of 200, and a portfolio value of 10200.
\<close>

theorem end_to_end_scenario:
  "fst (ProcessOrder (Portfolio_New c1_settings) c1_entry) = None
   \<and> cash c1_entered = 9000
   \<and> map_option UnrealizedPnL (map_of (openPositions c1_marked) ''AAPL'') = Some 200
   \<and> fst (ProcessOrder c1_marked c1_exit) = None
   \<and> cash c1_exited = 10200
   \<and> map Status (closedPositions c1_exited) = [Closed]
   \<and> map RealizedPnL (closedPositions c1_exited) = [200]
   \<and> map PosInstrument (closedPositions c1_exited) = [''AAPL'']
   \<and> openPositions c1_exited = []
   \<and> Portfolio_Value c1_exited = 10200"
proof -
  have "map_option UnrealizedPnL (map_of (openPositions c1_marked) ''AAPL'') = Some 200"
    by (simp add: c1_marked_eq)
  moreover have "fst (ProcessOrder (Portfolio_New c1_settings) c1_entry) = None \<and> cash c1_entered = 9000"
    by (simp add: c1_entered_def c1_entry_run)
  moreover have "fst (ProcessOrder c1_marked c1_exit) = None
     \<and> cash c1_exited = 10200
     \<and> map Status (closedPositions c1_exited) = [Closed]
     \<and> map RealizedPnL (closedPositions c1_exited) = [200]
     \<and> map PosInstrument (closedPositions c1_exited) = [''AAPL'']
     \<and> openPositions c1_exited = []
     \<and> Portfolio_Value c1_exited = 10200"
    by (simp add: c1_exited_def c1_exit_run Portfolio_Value_def)
  ultimately show ?thesis by blast
qed

section \<open>Closing a position\<close>

text \<open>
  Claim C5: for a position of positive quantity held in the open map under its
  instrument, \<^verbatim>\<open>ProcessOrder\<close> accepts an exit order for exactly that quantity, sets the
  position's status to \<open>Closed\<close>, its close price to the order's price and its quantity
  to 0, removes it from the open map and appends it to the closed list; it accepts an
  exit order for a smaller positive quantity, sets the status to \<open>PartiallyOpen\<close>,
  reduces the quantity by the order's and leaves the position in the open map, the closed
  list as it was.
\<close>

theorem closure_transition:
  assumes "map_of (openPositions p) (Instrument x) = Some pos"
    and "PosInstrument pos = Instrument x"
    and "Type x = Exit"
    and "0 < sint (PosQuantity pos)"
  shows "(Quantity x = PosQuantity pos \<longrightarrow>
            fst (ProcessOrder p x) = None
          \<and> map_of (openPositions (snd (ProcessOrder p x))) (Instrument x) = None
          \<and> closedPositions (snd (ProcessOrder p x)) = closedPositions p @ [snd (AddOrder pos x)]
          \<and> Status (snd (AddOrder pos x)) = Closed
          \<and> ClosePrice (snd (AddOrder pos x)) = Price x
          \<and> PosQuantity (snd (AddOrder pos x)) = 0)
       \<and> (0 < sint (Quantity x) \<and> sint (Quantity x) < sint (PosQuantity pos) \<longrightarrow>
            fst (ProcessOrder p x) = None
          \<and> map_of (openPositions (snd (ProcessOrder p x))) (Instrument x) = Some (snd (AddOrder pos x))
          \<and> closedPositions (snd (ProcessOrder p x)) = closedPositions p
          \<and> Status (snd (AddOrder pos x)) = PartiallyOpen
          \<and> sint (PosQuantity (snd (AddOrder pos x))) = sint (PosQuantity pos) - sint (Quantity x))"
proof (intro conjI impI)
  assume full: "Quantity x = PosQuantity pos"
  note a = AddOrder_Exit_full[OF assms(2,3,4) full]
  obtain pos' where p': "AddOrder pos x = (None, pos')" using a by (cases "AddOrder pos x") auto
  have v: "validateOrder p x = None" using assms full by (simp add: validateOrder_def)
  have st: "Status pos' = Closed" using a p' by simp
  have run: "ProcessOrder p x =
     (None, p\<lparr>openPositions := AList.delete (Instrument x) (AList.update (Instrument x) pos' (openPositions p)),
              cash := cash p + float64 (Quantity x) * Price x,
              closedPositions := closedPositions p @ [pos'],
              orderHistory := orderHistory p @ [x]\<rparr>)"
    using assms v p' st by (simp add: ProcessOrder_def handleExitOrder_def Let_def)
  show "fst (ProcessOrder p x) = None" by (simp add: run)
  show "map_of (openPositions (snd (ProcessOrder p x))) (Instrument x) = None"
    by (simp add: run delete_conv')
  show "closedPositions (snd (ProcessOrder p x)) = closedPositions p @ [snd (AddOrder pos x)]"
    by (simp add: run p')
  show "Status (snd (AddOrder pos x)) = Closed" "ClosePrice (snd (AddOrder pos x)) = Price x"
    "PosQuantity (snd (AddOrder pos x)) = 0" using a by simp_all
next
  assume part: "0 < sint (Quantity x) \<and> sint (Quantity x) < sint (PosQuantity pos)"
  then have q: "0 < sint (Quantity x)" "sint (Quantity x) < sint (PosQuantity pos)" by simp_all
  note a = AddOrder_Exit_partial[OF assms(2,3) q]
  obtain pos' where p': "AddOrder pos x = (None, pos')" using a by (cases "AddOrder pos x") auto
  have v: "validateOrder p x = None" using assms q by (simp add: validateOrder_def)
  have st: "Status pos' = PartiallyOpen" using a p' by simp
  have run: "ProcessOrder p x =
     (None, p\<lparr>openPositions := AList.update (Instrument x) pos' (openPositions p),
              cash := cash p + float64 (Quantity x) * Price x,
              orderHistory := orderHistory p @ [x]\<rparr>)"
    using assms v p' st by (simp add: ProcessOrder_def handleExitOrder_def Let_def)
  show "fst (ProcessOrder p x) = None" by (simp add: run)
  show "map_of (openPositions (snd (ProcessOrder p x))) (Instrument x) = Some (snd (AddOrder pos x))"
    by (simp add: run p' update_conv')
  show "closedPositions (snd (ProcessOrder p x)) = closedPositions p" by (simp add: run)
  show "Status (snd (AddOrder pos x)) = PartiallyOpen"
    "sint (PosQuantity (snd (AddOrder pos x))) = sint (PosQuantity pos) - sint (Quantity x)"
    using a by simp_all
qed

theorem closure_transition_witness:
  "map_of (openPositions c5_portfolio) ''AAPL'' = Some c5_position
   \<and> 0 < sint (PosQuantity c5_position)
   \<and> Quantity c5_full = PosQuantity c5_position
   \<and> map_of (openPositions (snd (ProcessOrder c5_portfolio c5_full))) ''AAPL'' = None
   \<and> closedPositions (snd (ProcessOrder c5_portfolio c5_full)) = [snd (AddOrder c5_position c5_full)]
   \<and> Status (snd (AddOrder c5_position c5_full)) = Closed
   \<and> ClosePrice (snd (AddOrder c5_position c5_full)) = 120
   \<and> sint (Quantity c5_part) < sint (PosQuantity c5_position)
   \<and> map_of (openPositions (snd (ProcessOrder c5_portfolio c5_part))) ''AAPL'' = Some (snd (AddOrder c5_position c5_part))
   \<and> Status (snd (AddOrder c5_position c5_part)) = PartiallyOpen
   \<and> sint (PosQuantity (snd (AddOrder c5_position c5_part))) = 6"
proof -
  have h1: "map_of (openPositions c5_portfolio) (Instrument c5_full) = Some c5_position"
    by (simp add: c5_portfolio_def c5_full_def)
  have h2: "PosInstrument c5_position = Instrument c5_full" by (simp add: c5_position_def c5_full_def)
  have h3: "Type c5_full = Exit" by (simp add: c5_full_def)
  have h4: "0 < sint (PosQuantity c5_position)" by (simp add: c5_position_def)
  have g1: "map_of (openPositions c5_portfolio) (Instrument c5_part) = Some c5_position"
    by (simp add: c5_portfolio_def c5_part_def)
  have g2: "PosInstrument c5_position = Instrument c5_part" by (simp add: c5_position_def c5_part_def)
  have g3: "Type c5_part = Exit" by (simp add: c5_part_def)
  have full: "Quantity c5_full = PosQuantity c5_position" by (simp add: c5_position_def c5_full_def)
  have part: "0 < sint (Quantity c5_part) \<and> sint (Quantity c5_part) < sint (PosQuantity c5_position)"
    by (simp add: c5_position_def c5_part_def)
  have i1: "Instrument c5_full = ''AAPL''" "Price c5_full = 120" "closedPositions c5_portfolio = []"
    by (simp_all add: c5_full_def c5_portfolio_def)
  have i2: "Instrument c5_part = ''AAPL''" "sint (PosQuantity c5_position) - sint (Quantity c5_part) = 6"
    by (simp_all add: c5_part_def c5_position_def)
  from closure_transition[OF h1 h2 h3 h4] full i1
  have a: "map_of (openPositions (snd (ProcessOrder c5_portfolio c5_full))) ''AAPL'' = None
     \<and> closedPositions (snd (ProcessOrder c5_portfolio c5_full)) = [snd (AddOrder c5_position c5_full)]
     \<and> Status (snd (AddOrder c5_position c5_full)) = Closed
     \<and> ClosePrice (snd (AddOrder c5_position c5_full)) = 120"
    by simp
  from closure_transition[OF g1 g2 g3 h4] part i2
  have b: "map_of (openPositions (snd (ProcessOrder c5_portfolio c5_part))) ''AAPL'' = Some (snd (AddOrder c5_position c5_part))
     \<and> Status (snd (AddOrder c5_position c5_part)) = PartiallyOpen
     \<and> sint (PosQuantity (snd (AddOrder c5_position c5_part))) = 6"
    by simp
  from h1 i1 h4 full part a b show ?thesis by simp
qed

section \<open>What every reachable portfolio satisfies\<close>

lemma map_of_map_values:
  "map_of (map (\<lambda>(k, v). case g k of Some y \<Rightarrow> (k, f v y) | None \<Rightarrow> (k, v)) al) k
     = map_option (\<lambda>v. case g k of Some y \<Rightarrow> f v y | None \<Rightarrow> v) (map_of al k)"
  by (induction al) (auto split: option.splits)

lemma map_fst_map_values:
  "map fst (map (\<lambda>(k, v). case g k of Some y \<Rightarrow> (k, f v y) | None \<Rightarrow> (k, v)) al) = map fst al"
  by (induction al) (auto split: option.splits)

lemma UpdatePositions_keys:
  "map fst (openPositions (UpdatePositions p prices)) = map fst (openPositions p)"
  unfolding UpdatePositions_def using map_fst_map_values[where g = prices and f = updatePosition and al = "openPositions p"]
  by simp

lemma UpdatePositions_lookup:
  "map_of (openPositions (UpdatePositions p prices)) k
     = map_option (\<lambda>pos. case prices k of Some y \<Rightarrow> UpdatePrice pos y | None \<Rightarrow> pos) (map_of (openPositions p) k)"
  unfolding UpdatePositions_def updatePosition_def
  using map_of_map_values[where g = prices and f = UpdatePrice and al = "openPositions p" and k = k]
  by simp

lemma UpdatePositions_rest:
  "closedPositions (UpdatePositions p prices) = closedPositions p \<and> cash (UpdatePositions p prices) = cash p
   \<and> orderHistory (UpdatePositions p prices) = orderHistory p \<and> settings (UpdatePositions p prices) = settings p"
  by (simp add: UpdatePositions_def)

lemma UpdatePositions_positionsOK:
  assumes "positionsOK p"
  shows "positionsOK (UpdatePositions p prices)"
  using assms unfolding positionsOK_def
  by (auto simp: UpdatePositions_keys UpdatePositions_lookup UpdatePositions_rest UpdatePrice_keeps
      split: option.splits)

lemma handleEntryOrder_accepted:
  assumes "handleEntryOrder p x = (None, p')"
  shows "closedPositions p' = closedPositions p \<and> settings p' = settings p
     \<and> orderHistory p' = orderHistory p @ [x]
     \<and> (\<exists>pos'. openPositions p' = AList.update (Instrument x) pos' (openPositions p)
            \<and> (case map_of (openPositions p) (Instrument x) of
                  None \<Rightarrow> NewPosition x = Inr pos'
                | Some pos \<Rightarrow> AddOrder pos x = (None, pos')))"
proof (cases "map_of (openPositions p) (Instrument x)")
  case None
  with assms show ?thesis
    by (cases "NewPosition x") (auto simp: handleEntryOrder_def Let_def)
next
  case (Some pos)
  with assms show ?thesis
    by (cases "AddOrder pos x"; cases "fst (AddOrder pos x)")
       (auto simp: handleEntryOrder_def Let_def)
qed

lemma handleExitOrder_accepted:
  assumes "handleExitOrder p x = (None, p')"
  shows "settings p' = settings p \<and> orderHistory p' = orderHistory p @ [x]
     \<and> cash p' = cash p + float64 (Quantity x) * Price x
     \<and> (\<exists>pos pos'. map_of (openPositions p) (Instrument x) = Some pos
            \<and> AddOrder pos x = (None, pos')
            \<and> (if Status pos' = Closed
               then openPositions p' = AList.delete (Instrument x) (AList.update (Instrument x) pos' (openPositions p))
                    \<and> closedPositions p' = closedPositions p @ [pos']
               else openPositions p' = AList.update (Instrument x) pos' (openPositions p)
                    \<and> closedPositions p' = closedPositions p))"
proof (cases "map_of (openPositions p) (Instrument x)")
  case None
  with assms show ?thesis by (simp add: handleExitOrder_def)
next
  case (Some pos)
  with assms show ?thesis
    by (cases "AddOrder pos x"; cases "fst (AddOrder pos x)")
       (auto simp: handleExitOrder_def Let_def)
qed

lemma ProcessOrder_accepted:
  assumes "ProcessOrder p x = (None, p')"
  shows "validateOrder p x = None
     \<and> (case Type x of Entry \<Rightarrow> handleEntryOrder p x = (None, p') | Exit \<Rightarrow> handleExitOrder p x = (None, p'))"
  using assms by (auto simp: ProcessOrder_def split: option.splits OrderType.splits)

lemma ProcessOrder_positionsOK:
  assumes ok: "positionsOK p" and fit: "callFits p (CallProcessOrder x)"
  shows "positionsOK (snd (ProcessOrder p x))"
proof (cases "ProcessOrder p x")
  case (Pair err p')
  show ?thesis
  proof (cases err)
    case (Some e)
    with Pair have "p' = p" using ProcessOrder_error_unchanged by blast
    with ok Pair show ?thesis by simp
  next
    case None
    with Pair have run: "ProcessOrder p x = (None, p')" by simp
    from ok have dist: "distinct (map fst (openPositions p))"
      and opn: "\<And>k pos. map_of (openPositions p) k = Some pos \<Longrightarrow>
           PosInstrument pos = k \<and> 0 < sint (PosQuantity pos) \<and> Status pos \<noteq> Closed"
      and cls: "\<And>c. c \<in> set (closedPositions p) \<Longrightarrow> PosQuantity c = 0 \<and> Status c = Closed"
      unfolding positionsOK_def by blast+
    show ?thesis
    proof (cases "Type x")
      case Entry
      with ProcessOrder_accepted[OF run] have h: "handleEntryOrder p x = (None, p')" by simp
      from handleEntryOrder_accepted[OF h] obtain pos' where
        c: "closedPositions p' = closedPositions p" and
        o: "openPositions p' = AList.update (Instrument x) pos' (openPositions p)" and
        src: "case map_of (openPositions p) (Instrument x) of
                  None \<Rightarrow> NewPosition x = Inr pos'
                | Some pos \<Rightarrow> AddOrder pos x = (None, pos')"
        by blast
      have new_ok: "PosInstrument pos' = Instrument x \<and> 0 < sint (PosQuantity pos') \<and> Status pos' \<noteq> Closed"
      proof (cases "map_of (openPositions p) (Instrument x)")
        case None
        with src have "NewPosition x = Inr pos'" by simp
        from NewPosition_Inr[OF this] show ?thesis by simp
      next
        case (Some pos)
        with src have a: "AddOrder pos x = (None, pos')" by simp
        have f: "Type x = Entry \<Longrightarrow> sint (PosQuantity pos) + sint (Quantity x) < 2 ^ 63"
          using fit Some by simp
        from AddOrder_keeps_position_ok[OF _ _ _ f a, of "Instrument x"] opn[OF Some] Entry
        show ?thesis by (auto split: if_splits)
      qed
      have "positionsOK p'"
        unfolding positionsOK_def o c
        using dist opn cls new_ok
        by (auto simp: distinct_update update_conv' split: if_splits)
      with Pair show ?thesis by simp
    next
      case Exit
      with ProcessOrder_accepted[OF run] have h: "handleExitOrder p x = (None, p')" by simp
      from handleExitOrder_accepted[OF h] obtain pos pos' where
        m: "map_of (openPositions p) (Instrument x) = Some pos" and
        a: "AddOrder pos x = (None, pos')" and
        r: "if Status pos' = Closed
               then openPositions p' = AList.delete (Instrument x) (AList.update (Instrument x) pos' (openPositions p))
                    \<and> closedPositions p' = closedPositions p @ [pos']
               else openPositions p' = AList.update (Instrument x) pos' (openPositions p)
                    \<and> closedPositions p' = closedPositions p"
        by blast
      have f: "Type x = Entry \<Longrightarrow> sint (PosQuantity pos) + sint (Quantity x) < 2 ^ 63"
        using Exit by simp
      from AddOrder_keeps_position_ok[OF _ _ _ f a, of "Instrument x"] opn[OF m]
      have k: "PosInstrument pos' = Instrument x"
        and s: "if Status pos' = Closed then PosQuantity pos' = 0 else 0 < sint (PosQuantity pos')"
        by (auto split: if_splits)
      have "positionsOK p'"
      proof (cases "Status pos' = Closed")
        case True
        with r have o: "openPositions p' = AList.delete (Instrument x) (AList.update (Instrument x) pos' (openPositions p))"
          and c: "closedPositions p' = closedPositions p @ [pos']" by simp_all
        show ?thesis unfolding positionsOK_def o c
          using dist opn cls True s
          by (auto simp: distinct_update distinct_delete update_conv' delete_conv' split: if_splits)
      next
        case False
        with r have o: "openPositions p' = AList.update (Instrument x) pos' (openPositions p)"
          and c: "closedPositions p' = closedPositions p" by simp_all
        show ?thesis unfolding positionsOK_def o c
          using dist opn cls False s k
          by (auto simp: distinct_update update_conv' split: if_splits)
      qed
      with Pair show ?thesis by simp
    qed
  qed
qed

lemma runCalls_positionsOK:
  "positionsOK p \<Longrightarrow> callsFit p cs \<Longrightarrow> positionsOK (runCalls p cs)"
proof (induction cs arbitrary: p)
  case Nil
  then show ?case by simp
next
  case (Cons c cs)
  have "positionsOK (applyCall p c)"
  proof (cases c)
    case (CallProcessOrder x)
    with Cons.prems show ?thesis using ProcessOrder_positionsOK by simp
  next
    case (CallUpdatePositions prices)
    with Cons.prems show ?thesis using UpdatePositions_positionsOK by simp
  qed
  with Cons show ?case by simp
qed

lemma positionsOK_New: "positionsOK (Portfolio_New s)"
  by (simp add: positionsOK_def Portfolio_New_def)

text \<open>
  Claim C6, as stated, fails twice. An instrument that was closed and is entered again is
  a key of the open map and the instrument of a closed position at once: the closed list
  is a history, and nothing removes from it. And entries whose quantities add up beyond
  the largest \<^verbatim>\<open>int\<close> leave a position of negative quantity in the open map.
\<close>

theorem portfolio_set_invariant_counterexample:
  "map fst (openPositions (runCalls (Portfolio_New c6_settings) c6_reentry)) = [''AAPL'']
   \<and> map PosInstrument (closedPositions (runCalls (Portfolio_New c6_settings) c6_reentry)) = [''AAPL'']
   \<and> map (\<lambda>(k, pos). (k, sint (PosQuantity pos))) (openPositions (runCalls (Portfolio_New c6_settings) c6_overflow))
       = [(''AAPL'', - 9223372036854775808)]"
  by (simp add: c6_reentry_def c6_overflow_def ProcessOrder_def validateOrder_def handleEntryOrder_def
      handleExitOrder_def NewPosition_def AddOrder_def Portfolio_New_def
      c6_settings_def c6_entry_def c6_exit_def c6_huge_def c6_one_def Fill_def NewOrder_def float64_def Let_def)

text \<open>
  Claim C6, amended: in every state reached from a fresh portfolio by \<^verbatim>\<open>ProcessOrder\<close> and
  \<^verbatim>\<open>UpdatePositions\<close> calls, none of which is an entry that takes a position's quantity
  to \<open>2\<^sup>6\<^sup>3\<close> or more, the keys of the open map are distinct, every key maps to
  a position of that instrument with quantity greater than 0 and a status other than
  \<open>Closed\<close>, and every position of the closed list has quantity 0 and status \<open>Closed\<close>;
  so no position is open and closed at once.
\<close>

theorem portfolio_set_invariant:
  assumes "callsFit (Portfolio_New s) cs"
  shows "distinct (map fst (openPositions (runCalls (Portfolio_New s) cs)))
       \<and> (\<forall>(k, pos)\<in>set (openPositions (runCalls (Portfolio_New s) cs)).
             PosInstrument pos = k \<and> 0 < sint (PosQuantity pos) \<and> Status pos \<noteq> Closed)
       \<and> (\<forall>c\<in>set (closedPositions (runCalls (Portfolio_New s) cs)).
             PosQuantity c = 0 \<and> Status c = Closed)"
proof -
  have ok: "positionsOK (runCalls (Portfolio_New s) cs)"
    using positionsOK_New assms by (rule runCalls_positionsOK)
  then have d: "distinct (map fst (openPositions (runCalls (Portfolio_New s) cs)))"
    by (simp add: positionsOK_def)
  have "\<forall>(k, pos)\<in>set (openPositions (runCalls (Portfolio_New s) cs)).
             PosInstrument pos = k \<and> 0 < sint (PosQuantity pos) \<and> Status pos \<noteq> Closed"
  proof (clarify)
    fix k pos assume "(k, pos) \<in> set (openPositions (runCalls (Portfolio_New s) cs))"
    with d have "map_of (openPositions (runCalls (Portfolio_New s) cs)) k = Some pos" by simp
    with ok show "PosInstrument pos = k \<and> 0 < sint (PosQuantity pos) \<and> Status pos \<noteq> Closed"
      unfolding positionsOK_def by blast
  qed
  with ok d show ?thesis unfolding positionsOK_def by blast
qed

theorem portfolio_set_invariant_witness:
  "callsFit (Portfolio_New c6_settings) c6_calls
   \<and> map fst (openPositions (runCalls (Portfolio_New c6_settings) c6_calls)) = [''MSFT'']
   \<and> map PosInstrument (closedPositions (runCalls (Portfolio_New c6_settings) c6_calls)) = [''AAPL'']
   \<and> distinct (map fst (openPositions (runCalls (Portfolio_New c6_settings) c6_calls)))
   \<and> list_all (\<lambda>(k, pos). PosInstrument pos = k \<and> 0 < sint (PosQuantity pos) \<and> Status pos \<noteq> Closed)
        (openPositions (runCalls (Portfolio_New c6_settings) c6_calls))
   \<and> list_all (\<lambda>c. PosQuantity c = 0 \<and> Status c = Closed)
        (closedPositions (runCalls (Portfolio_New c6_settings) c6_calls))"
proof -
  have fit: "callsFit (Portfolio_New c6_settings) c6_calls"
    by (simp add: c6_calls_def ProcessOrder_def validateOrder_def handleEntryOrder_def
      handleExitOrder_def NewPosition_def AddOrder_def Portfolio_New_def UpdatePositions_def updatePosition_def
      UpdatePrice_def c6_settings_def c6_entry_def Fill_def NewOrder_def float64_def Let_def)
  have shape: "map fst (openPositions (runCalls (Portfolio_New c6_settings) c6_calls)) = [''MSFT'']
   \<and> map PosInstrument (closedPositions (runCalls (Portfolio_New c6_settings) c6_calls)) = [''AAPL'']"
    by (simp add: c6_calls_def ProcessOrder_def validateOrder_def handleEntryOrder_def
      handleExitOrder_def NewPosition_def AddOrder_def Portfolio_New_def UpdatePositions_def updatePosition_def
      UpdatePrice_def c6_settings_def c6_entry_def Fill_def NewOrder_def float64_def Let_def)
  from portfolio_set_invariant[OF fit] fit shape show ?thesis
    unfolding list_all_iff by blast
qed

section \<open>The exit scan of the risk manager\<close>

lemma checkLongExitConditions_verdict:
  "fst (checkLongExitConditions m pos c) =
     (if UseStopLoss m \<and> c \<le> OpenPrice pos * (1 - DefaultStopLoss m) then (True, ''stop_loss'')
      else if UseTakeProfit m \<and> OpenPrice pos * (1 + DefaultTakeProfit m) \<le> c then (True, ''take_profit'')
      else if UseTrailingStop m \<and> c \<le> max (TrailingStopHigh pos) c * (1 - DefaultTrailingStop m)
      then (True, ''trailing_stop'')
      else (False, []))"
  by (auto simp: checkLongExitConditions_def Let_def max_def)

lemma checkShortExitConditions_verdict:
  "fst (checkShortExitConditions m pos c) =
     (if UseStopLoss m \<and> OpenPrice pos * (1 + DefaultStopLoss m) \<le> c then (True, ''stop_loss'')
      else if UseTakeProfit m \<and> c \<le> OpenPrice pos * (1 - DefaultTakeProfit m) then (True, ''take_profit'')
      else if UseTrailingStop m \<and> min (TrailingStopHigh pos) c * (1 + DefaultTrailingStop m) \<le> c
      then (True, ''trailing_stop'')
      else (False, []))"
  by (auto simp: checkShortExitConditions_def Let_def min_def)

lemma checkLongExitConditions_position:
  "snd (checkLongExitConditions m pos c) =
     (if \<not> (UseStopLoss m \<and> c \<le> OpenPrice pos * (1 - DefaultStopLoss m))
         \<and> \<not> (UseTakeProfit m \<and> OpenPrice pos * (1 + DefaultTakeProfit m) \<le> c)
         \<and> UseTrailingStop m \<and> TrailingStopHigh pos < c
      then pos\<lparr>TrailingStopHigh := c\<rparr> else pos)"
  by (auto simp: checkLongExitConditions_def Let_def)

lemma checkShortExitConditions_position:
  "snd (checkShortExitConditions m pos c) =
     (if \<not> (UseStopLoss m \<and> OpenPrice pos * (1 + DefaultStopLoss m) \<le> c)
         \<and> \<not> (UseTakeProfit m \<and> c \<le> OpenPrice pos * (1 - DefaultTakeProfit m))
         \<and> UseTrailingStop m \<and> c < TrailingStopHigh pos
      then pos\<lparr>TrailingStopHigh := c\<rparr> else pos)"
  by (auto simp: checkShortExitConditions_def Let_def)

lemma checkExitConditions_keeps:
  "PosInstrument (snd (checkExitConditions m pos c)) = PosInstrument pos
   \<and> PosSide (snd (checkExitConditions m pos c)) = PosSide pos
   \<and> PosQuantity (snd (checkExitConditions m pos c)) = PosQuantity pos
   \<and> OpenPrice (snd (checkExitConditions m pos c)) = OpenPrice pos
   \<and> Status (snd (checkExitConditions m pos c)) = Status pos"
  by (simp add: checkExitConditions_def checkLongExitConditions_position checkShortExitConditions_position)

lemma scanPositions_orders:
  "fst (scanPositions m prices ps acc) = acc @ concat (map (\<lambda>(k, pos).
      case prices (PosInstrument pos) of
        None \<Rightarrow> []
      | Some c \<Rightarrow>
          if fst (fst (checkExitConditions m pos c))
          then [\<lparr>Instrument = PosInstrument pos, Side = Opposite (PosSide pos), Type = Exit,
                 Quantity = PosQuantity pos, Price = c, Leverage = 0\<rparr>]
          else []) ps)"
proof (induction ps arbitrary: acc)
  case Nil
  then show ?case by simp
next
  case (Cons a ps)
  obtain k pos where a: "a = (k, pos)" by (cases a)
  show ?case
  proof (cases "prices (PosInstrument pos)")
    case None
    obtain os rs where r: "scanPositions m prices ps acc = (os, rs)"
      by (cases "scanPositions m prices ps acc")
    with Cons.IH[of acc] have "os = acc @ concat (map (\<lambda>(k, pos).
      case prices (PosInstrument pos) of
        None \<Rightarrow> []
      | Some c \<Rightarrow>
          if fst (fst (checkExitConditions m pos c))
          then [\<lparr>Instrument = PosInstrument pos, Side = Opposite (PosSide pos), Type = Exit,
                 Quantity = PosQuantity pos, Price = c, Leverage = 0\<rparr>]
          else []) ps)" by simp
    then show ?thesis using None a r by simp
  next
    case (Some c)
    obtain v reason pos' where chk: "checkExitConditions m pos c = ((v, reason), pos')"
      by (cases "checkExitConditions m pos c") auto
    have keep: "PosInstrument pos' = PosInstrument pos" "PosSide pos' = PosSide pos"
      "PosQuantity pos' = PosQuantity pos"
      using checkExitConditions_keeps[of m pos c] chk by simp_all
    define acc' where "acc' = (if v
                        then acc @
                               [\<lparr>Instrument = PosInstrument pos', Side = Opposite (PosSide pos'),
                                 Type = Exit, Quantity = PosQuantity pos', Price = c,
                                 Leverage = 0\<rparr>]
                        else acc)"
    obtain os rs where r: "scanPositions m prices ps acc' = (os, rs)"
      by (cases "scanPositions m prices ps acc'")
    with Cons.IH[of acc'] have "os = acc' @ concat (map (\<lambda>(k, pos).
      case prices (PosInstrument pos) of
        None \<Rightarrow> []
      | Some c \<Rightarrow>
          if fst (fst (checkExitConditions m pos c))
          then [\<lparr>Instrument = PosInstrument pos, Side = Opposite (PosSide pos), Type = Exit,
                 Quantity = PosQuantity pos, Price = c, Leverage = 0\<rparr>]
          else []) ps)" by simp
    moreover have "fst (scanPositions m prices (a # ps) acc) = os"
      using Some chk a r unfolding acc'_def by simp
    ultimately show ?thesis using Some chk keep a unfolding acc'_def by simp
  qed
qed

lemma filter_concat_instrument:
  assumes "distinct (map fst ps)" "\<forall>(k, pos)\<in>set ps. PosInstrument pos = k"
    and "\<And>k pos. \<forall>x\<in>set (f (k, pos)). Instrument x = PosInstrument pos"
    and "(k, pos) \<in> set ps"
  shows "filter (\<lambda>x. Instrument x = k) (concat (map f ps)) = f (k, pos)"
  using assms(1,2,4)
proof (induction ps)
  case Nil
  then show ?case by simp
next
  case (Cons a ps)
  obtain k' pos' where a: "a = (k', pos')" by (cases a)
  have inst: "PosInstrument pos' = k'" using Cons.prems(2) a by simp
  have all: "\<forall>x\<in>set (f (k', pos')). Instrument x = k'" using assms(3)[of k' pos'] inst by simp
  show ?case
  proof (cases "k' = k")
    case True
    then have same: "pos' = pos"
      using Cons.prems(1,3) a by (auto simp: image_iff)
    have "k \<notin> fst ` set ps" using Cons.prems(1) a True by simp
    then have others: "\<forall>(k2, pos2)\<in>set ps. k2 \<noteq> k" by (auto simp: image_iff)
    have "filter (\<lambda>x. Instrument x = k) (concat (map f ps)) = []"
    proof -
      have "\<forall>e\<in>set ps. \<forall>x\<in>set (f e). Instrument x \<noteq> k"
      proof
        fix e assume e: "e \<in> set ps"
        obtain k2 pos2 where e2: "e = (k2, pos2)" by (cases e)
        have "PosInstrument pos2 = k2" using Cons.prems(2) e e2 by auto
        moreover have "k2 \<noteq> k" using others e e2 by auto
        ultimately show "\<forall>x\<in>set (f e). Instrument x \<noteq> k" using assms(3)[of k2 pos2] e2 by auto
      qed
      then show ?thesis by (auto simp: filter_empty_conv)
    qed
    moreover have "filter (\<lambda>x. Instrument x = k) (f (k', pos')) = f (k', pos')"
      using all True by (auto simp: filter_id_conv)
    ultimately show ?thesis using a True same by simp
  next
    case False
    then have "(k, pos) \<in> set ps" using Cons.prems(3) a by auto
    moreover have "filter (\<lambda>x. Instrument x = k) (f (k', pos')) = []"
      using all False by (auto simp: filter_empty_conv)
    ultimately show ?thesis using Cons.IH Cons.prems(1,2) a by simp
  qed
qed

text \<open>
  Claim C7: take an open position, held under its instrument in a map of distinct keys,
  whose instrument has a price \<open>c\<close> in the price map. The exit conditions are evaluated in
  the order stop-loss, take-profit, trailing stop, each only if it is switched on, and the
  first that holds gives the verdict and its reason: for a long position the stop-loss
  holds when \<open>c \<le> openPrice * (1 - stopRate)\<close>, the take-profit when
  \<open>c \<ge> openPrice * (1 + tpRate)\<close>, the trailing stop when \<open>c\<close> is at most the anchor,
  raised to \<open>c\<close> if below it, times \<open>1 - trailingRate\<close>; for a short position the three are
  mirrored. The orders that \<^verbatim>\<open>CheckPositionExits\<close> returns for this instrument are exactly
  one exit order on the opposite side, for the position's whole quantity, at price \<open>c\<close>,
  if a condition holds, and none otherwise.
\<close>

theorem risk_forced_exit_scan:
  assumes "distinct (map fst (openPositions p))"
    and "\<forall>(k, pos)\<in>set (openPositions p). PosInstrument pos = k"
    and "(k, pos) \<in> set (openPositions p)"
    and "prices k = Some c"
  shows "(PosSide pos = Long \<longrightarrow>
            fst (checkExitConditions m pos c) =
              (if UseStopLoss m \<and> c \<le> OpenPrice pos * (1 - DefaultStopLoss m) then (True, ''stop_loss'')
               else if UseTakeProfit m \<and> OpenPrice pos * (1 + DefaultTakeProfit m) \<le> c then (True, ''take_profit'')
               else if UseTrailingStop m \<and> c \<le> max (TrailingStopHigh pos) c * (1 - DefaultTrailingStop m)
               then (True, ''trailing_stop'')
               else (False, [])))
       \<and> (PosSide pos = Short \<longrightarrow>
            fst (checkExitConditions m pos c) =
              (if UseStopLoss m \<and> OpenPrice pos * (1 + DefaultStopLoss m) \<le> c then (True, ''stop_loss'')
               else if UseTakeProfit m \<and> c \<le> OpenPrice pos * (1 - DefaultTakeProfit m) then (True, ''take_profit'')
               else if UseTrailingStop m \<and> min (TrailingStopHigh pos) c * (1 + DefaultTrailingStop m) \<le> c
               then (True, ''trailing_stop'')
               else (False, [])))
       \<and> filter (\<lambda>x. Instrument x = k) (fst (CheckPositionExits m p prices)) =
            (if fst (fst (checkExitConditions m pos c))
             then [\<lparr>Instrument = k, Side = Opposite (PosSide pos), Type = Exit,
                    Quantity = PosQuantity pos, Price = c, Leverage = 0\<rparr>]
             else [])"
proof (intro conjI impI)
  assume "PosSide pos = Long"
  then show "fst (checkExitConditions m pos c) =
              (if UseStopLoss m \<and> c \<le> OpenPrice pos * (1 - DefaultStopLoss m) then (True, ''stop_loss'')
               else if UseTakeProfit m \<and> OpenPrice pos * (1 + DefaultTakeProfit m) \<le> c then (True, ''take_profit'')
               else if UseTrailingStop m \<and> c \<le> max (TrailingStopHigh pos) c * (1 - DefaultTrailingStop m)
               then (True, ''trailing_stop'')
               else (False, []))"
    by (simp add: checkExitConditions_def checkLongExitConditions_verdict)
next
  assume "PosSide pos = Short"
  then show "fst (checkExitConditions m pos c) =
              (if UseStopLoss m \<and> OpenPrice pos * (1 + DefaultStopLoss m) \<le> c then (True, ''stop_loss'')
               else if UseTakeProfit m \<and> c \<le> OpenPrice pos * (1 - DefaultTakeProfit m) then (True, ''take_profit'')
               else if UseTrailingStop m \<and> min (TrailingStopHigh pos) c * (1 + DefaultTrailingStop m) \<le> c
               then (True, ''trailing_stop'')
               else (False, []))"
    by (simp add: checkExitConditions_def checkShortExitConditions_verdict)
next
  let ?f = "\<lambda>(k, pos).
      case prices (PosInstrument pos) of
        None \<Rightarrow> []
      | Some c \<Rightarrow>
          if fst (fst (checkExitConditions m pos c))
          then [\<lparr>Instrument = PosInstrument pos, Side = Opposite (PosSide pos), Type = Exit,
                 Quantity = PosQuantity pos, Price = c, Leverage = 0\<rparr>]
          else []"
  have "fst (CheckPositionExits m p prices) = fst (scanPositions m prices (openPositions p) [])"
    by (cases "scanPositions m prices (openPositions p) []")
       (simp add: CheckPositionExits_def Positions_def)
  then have orders: "fst (CheckPositionExits m p prices) = concat (map ?f (openPositions p))"
    using scanPositions_orders[of m prices "openPositions p" "[]"] by simp
  have own: "\<And>k pos. \<forall>x\<in>set (?f (k, pos)). Instrument x = PosInstrument pos"
    by (auto split: option.splits)
  have inst: "PosInstrument pos = k" using assms(2,3) by auto
  have "filter (\<lambda>x. Instrument x = k) (concat (map ?f (openPositions p))) = ?f (k, pos)"
    using assms(1,2) own assms(3) by (rule filter_concat_instrument)
  then show "filter (\<lambda>x. Instrument x = k) (fst (CheckPositionExits m p prices)) =
            (if fst (fst (checkExitConditions m pos c))
             then [\<lparr>Instrument = k, Side = Opposite (PosSide pos), Type = Exit,
                    Quantity = PosQuantity pos, Price = c, Leverage = 0\<rparr>]
             else [])"
    using orders inst assms(4) by simp
qed

theorem risk_forced_exit_scan_witness:
  "distinct (map fst (openPositions c7_portfolio))
   \<and> list_all (\<lambda>(k, pos). PosInstrument pos = k) (openPositions c7_portfolio)
   \<and> (''AAPL'', c7_position) \<in> set (openPositions c7_portfolio)
   \<and> [''AAPL'' \<mapsto> 94] ''AAPL'' = Some (94 :: real)
   \<and> PosSide c7_position = Long
   \<and> fst (checkExitConditions c7_risk c7_position 94) = (True, ''stop_loss'')
   \<and> filter (\<lambda>x. Instrument x = ''AAPL'') (fst (CheckPositionExits c7_risk c7_portfolio [''AAPL'' \<mapsto> 94]))
        = [\<lparr>Instrument = ''AAPL'', Side = Short, Type = Exit, Quantity = 10, Price = 94, Leverage = 0\<rparr>]"
proof -
  have h1: "distinct (map fst (openPositions c7_portfolio))" by (simp add: c7_portfolio_def)
  have h2: "\<forall>(k, pos)\<in>set (openPositions c7_portfolio). PosInstrument pos = k"
    by (simp add: c7_portfolio_def c7_position_def)
  have h3: "(''AAPL'', c7_position) \<in> set (openPositions c7_portfolio)" by (simp add: c7_portfolio_def)
  have h4: "[''AAPL'' \<mapsto> 94] ''AAPL'' = Some (94 :: real)" by simp
  have side: "PosSide c7_position = Long" by (simp add: c7_position_def)
  have hit: "UseStopLoss c7_risk \<and> 94 \<le> OpenPrice c7_position * (1 - DefaultStopLoss c7_risk)"
    by (simp add: c7_risk_def c7_position_def)
  have fields: "Opposite (PosSide c7_position) = Short" "PosQuantity c7_position = 10"
    by (simp_all add: c7_position_def)
  note scan = risk_forced_exit_scan[where p = c7_portfolio and k = "''AAPL''" and pos = c7_position
      and prices = "[''AAPL'' \<mapsto> 94]" and c = 94 and m = c7_risk, OF h1 h2 h3 h4]
  from scan side hit have v: "fst (checkExitConditions c7_risk c7_position 94) = (True, ''stop_loss'')"
    by simp
  from scan v fields
  have "filter (\<lambda>x. Instrument x = ''AAPL'') (fst (CheckPositionExits c7_risk c7_portfolio [''AAPL'' \<mapsto> 94]))
        = [\<lparr>Instrument = ''AAPL'', Side = Short, Type = Exit, Quantity = 10, Price = 94, Leverage = 0\<rparr>]"
    by simp
  with h1 h2 h3 h4 side v show ?thesis unfolding list_all_iff by blast
qed

section \<open>The anchor of the trailing stop\<close>

lemma checkExitConditions_anchor_Long:
  assumes "PosSide pos = Long"
  shows "TrailingStopHigh (snd (checkExitConditions m pos c)) =
     (if UseTrailingStop m
         \<and> \<not> (UseStopLoss m \<and> c \<le> OpenPrice pos * (1 - DefaultStopLoss m))
         \<and> \<not> (UseTakeProfit m \<and> OpenPrice pos * (1 + DefaultTakeProfit m) \<le> c)
      then max (TrailingStopHigh pos) c else TrailingStopHigh pos)"
  using assms by (auto simp: checkExitConditions_def checkLongExitConditions_position max_def)

lemma checkExitConditions_anchor_Short:
  assumes "PosSide pos = Short"
  shows "TrailingStopHigh (snd (checkExitConditions m pos c)) =
     (if UseTrailingStop m
         \<and> \<not> (UseStopLoss m \<and> OpenPrice pos * (1 + DefaultStopLoss m) \<le> c)
         \<and> \<not> (UseTakeProfit m \<and> c \<le> OpenPrice pos * (1 - DefaultTakeProfit m))
      then min (TrailingStopHigh pos) c else TrailingStopHigh pos)"
  using assms by (auto simp: checkExitConditions_def checkShortExitConditions_position min_def)

lemma applyPositionCall_side: "PosSide (applyPositionCall pos c) = PosSide pos"
  by (cases c) (simp_all add: UpdatePrice_keeps checkExitConditions_keeps)

lemma applyPositionCall_anchor:
  "(PosSide pos = Long \<longrightarrow> TrailingStopHigh pos \<le> TrailingStopHigh (applyPositionCall pos c))
   \<and> (PosSide pos = Short \<longrightarrow> TrailingStopHigh (applyPositionCall pos c) \<le> TrailingStopHigh pos)"
proof (cases c)
  case (CallUpdatePrice x)
  then show ?thesis by (simp add: UpdatePrice_keeps)
next
  case (CallCheckExitConditions m x)
  then show ?thesis
    by (simp add: checkExitConditions_anchor_Long checkExitConditions_anchor_Short)
qed

lemma runPositionCalls_append:
  "runPositionCalls pos (cs @ cs') = runPositionCalls (runPositionCalls pos cs) cs'"
  by (induction cs arbitrary: pos) simp_all

lemma runPositionCalls_side: "PosSide (runPositionCalls pos cs) = PosSide pos"
  by (induction cs arbitrary: pos) (simp_all add: applyPositionCall_side)

lemma runPositionCalls_anchor:
  "(PosSide pos = Long \<longrightarrow> TrailingStopHigh pos \<le> TrailingStopHigh (runPositionCalls pos cs))
   \<and> (PosSide pos = Short \<longrightarrow> TrailingStopHigh (runPositionCalls pos cs) \<le> TrailingStopHigh pos)"
proof (induction cs arbitrary: pos)
  case Nil
  then show ?case by simp
next
  case (Cons c cs)
  have s: "PosSide (applyPositionCall pos c) = PosSide pos" by (rule applyPositionCall_side)
  from Cons.IH[of "applyPositionCall pos c"] applyPositionCall_anchor[of pos c] s
  show ?case by (auto intro: order_trans)
qed

text \<open>
  Claim C8: along any list of \<^verbatim>\<open>UpdatePrice\<close> calls and evaluations of the exit conditions,
  in any interleaving and continued by any further such list, the trailing anchor of a
  long position never decreases and that of a short position never increases.
  \<^verbatim>\<open>UpdatePrice\<close> leaves the anchor alone; an evaluation that gets as far as the
  trailing-stop check (the trailing stop is switched on and neither stop-loss nor
  take-profit has fired) moves the anchor to the larger of anchor and price for a long
  position, to the smaller for a short one, and any other evaluation leaves it alone.
\<close>

theorem trailing_stop_anchor_monotone:
  "(PosSide pos = Long \<longrightarrow>
      TrailingStopHigh (runPositionCalls pos cs) \<le> TrailingStopHigh (runPositionCalls pos (cs @ cs'))
    \<and> TrailingStopHigh (UpdatePrice pos c) = TrailingStopHigh pos
    \<and> TrailingStopHigh (snd (checkExitConditions m pos c)) =
        (if UseTrailingStop m
            \<and> \<not> (UseStopLoss m \<and> c \<le> OpenPrice pos * (1 - DefaultStopLoss m))
            \<and> \<not> (UseTakeProfit m \<and> OpenPrice pos * (1 + DefaultTakeProfit m) \<le> c)
         then max (TrailingStopHigh pos) c else TrailingStopHigh pos))
   \<and> (PosSide pos = Short \<longrightarrow>
      TrailingStopHigh (runPositionCalls pos (cs @ cs')) \<le> TrailingStopHigh (runPositionCalls pos cs)
    \<and> TrailingStopHigh (UpdatePrice pos c) = TrailingStopHigh pos
    \<and> TrailingStopHigh (snd (checkExitConditions m pos c)) =
        (if UseTrailingStop m
            \<and> \<not> (UseStopLoss m \<and> OpenPrice pos * (1 + DefaultStopLoss m) \<le> c)
            \<and> \<not> (UseTakeProfit m \<and> c \<le> OpenPrice pos * (1 - DefaultTakeProfit m))
         then min (TrailingStopHigh pos) c else TrailingStopHigh pos))"
proof -
  have side: "PosSide (runPositionCalls pos cs) = PosSide pos" by (rule runPositionCalls_side)
  have app: "runPositionCalls pos (cs @ cs') = runPositionCalls (runPositionCalls pos cs) cs'"
    by (rule runPositionCalls_append)
  show ?thesis
    using runPositionCalls_anchor[of "runPositionCalls pos cs" cs'] side app
      checkExitConditions_anchor_Long[of pos m c] checkExitConditions_anchor_Short[of pos m c]
      UpdatePrice_keeps[of pos c]
    by simp
qed

theorem trailing_stop_anchor_monotone_witness:
  "PosSide c8_long = Long \<and> PosSide c8_short = Short
   \<and> TrailingStopHigh (runPositionCalls c8_long c8_calls) = 120
   \<and> TrailingStopHigh (runPositionCalls c8_long (c8_calls @ c8_more)) = 120
   \<and> TrailingStopHigh (runPositionCalls c8_short c8_calls) = 90
   \<and> TrailingStopHigh (runPositionCalls c8_short (c8_calls @ c8_more)) = 85
   \<and> TrailingStopHigh (runPositionCalls c8_long c8_calls)
        \<le> TrailingStopHigh (runPositionCalls c8_long (c8_calls @ c8_more))
   \<and> TrailingStopHigh (runPositionCalls c8_short (c8_calls @ c8_more))
        \<le> TrailingStopHigh (runPositionCalls c8_short c8_calls)"
proof -
  have l: "PosSide c8_long = Long" by (simp add: c8_long_def)
  have s: "PosSide c8_short = Short" by (simp add: c8_short_def)
  have vals: "TrailingStopHigh (runPositionCalls c8_long c8_calls) = 120"
    "TrailingStopHigh (runPositionCalls c8_long (c8_calls @ c8_more)) = 120"
    "TrailingStopHigh (runPositionCalls c8_short c8_calls) = 90"
    "TrailingStopHigh (runPositionCalls c8_short (c8_calls @ c8_more)) = 85"
    by (simp_all add: c8_calls_def c8_more_def c8_short_def c8_long_def c8_risk_def UpdatePrice_def
        checkExitConditions_def checkLongExitConditions_def checkShortExitConditions_def float64_def Let_def)
  from trailing_stop_anchor_monotone[of c8_long c8_calls c8_more 0 c8_risk] l
  have a: "TrailingStopHigh (runPositionCalls c8_long c8_calls)
        \<le> TrailingStopHigh (runPositionCalls c8_long (c8_calls @ c8_more))" by blast
  from trailing_stop_anchor_monotone[of c8_short c8_calls c8_more 0 c8_risk] s
  have b: "TrailingStopHigh (runPositionCalls c8_short (c8_calls @ c8_more))
        \<le> TrailingStopHigh (runPositionCalls c8_short c8_calls)" by blast
  from l s vals a b show ?thesis by blast
qed

section \<open>The equity curve\<close>

lemma processOrder_keeps:
  "EquityCurve (snd (processOrder r x)) = EquityCurve r \<and> CurrentTime (snd (processOrder r x)) = CurrentTime r
   \<and> Data (snd (processOrder r x)) = Data r \<and> RiskManager (snd (processOrder r x)) = RiskManager r"
  by (auto simp: processOrder_def split: option.splits prod.splits)

lemma processOrders_keeps:
  "EquityCurve (snd (processOrders r xs)) = EquityCurve r \<and> CurrentTime (snd (processOrders r xs)) = CurrentTime r
   \<and> Data (snd (processOrders r xs)) = Data r \<and> RiskManager (snd (processOrders r xs)) = RiskManager r"
proof (induction xs arbitrary: r)
  case Nil
  then show ?case by simp
next
  case (Cons x xs)
  obtain err r1 where p: "processOrder r x = (err, r1)" by (cases "processOrder r x")
  have k: "EquityCurve r1 = EquityCurve r \<and> CurrentTime r1 = CurrentTime r
      \<and> Data r1 = Data r \<and> RiskManager r1 = RiskManager r"
    using processOrder_keeps[of r x] p by simp
  show ?case
  proof (cases err)
    case None
    with p k Cons.IH[of r1] show ?thesis by simp
  next
    case (Some e)
    with p k show ?thesis by simp
  qed
qed

lemma processTick_keeps:
  "EquityCurve (snd (processTick r data)) = EquityCurve r \<and> CurrentTime (snd (processTick r data)) = CurrentTime r"
proof (cases "Portfolio r")
  case None
  then show ?thesis by (simp add: processTick_def)
next
  case (Some p)
  note P = Some
  show ?thesis
  proof (cases "RiskManager r")
    case None
    with P show ?thesis by (simp add: processTick_def Let_def)
  next
    case (Some m)
    note M = Some
    obtain exitOrders p2 where c: "CheckPositionExits m (UpdatePositions p (getCurrentPrices data)) (getCurrentPrices data) = (exitOrders, p2)"
      by (cases "CheckPositionExits m (UpdatePositions p (getCurrentPrices data)) (getCurrentPrices data)")
    define step1 where "step1 = (if length exitOrders > 0
                                then processOrders (r\<lparr>Portfolio := Some p2\<rparr>) exitOrders
                                else (None, r\<lparr>Portfolio := Some p2\<rparr>))"
    obtain err r2 where s1: "step1 = (err, r2)" by (cases step1)
    have k2: "EquityCurve r2 = EquityCurve r \<and> CurrentTime r2 = CurrentTime r"
      using processOrders_keeps[of "r\<lparr>Portfolio := Some p2\<rparr>" exitOrders] s1
      unfolding step1_def by (auto split: if_splits)
    have unfold: "processTick r data =
       (case step1 of
          (Some e, r2) \<Rightarrow> (Some e, r2)
        | (None, r2) \<Rightarrow>
            (case Strategy r2 of
               None \<Rightarrow> (Some NilDereference, r2)
             | Some st \<Rightarrow>
                 (case Portfolio r2 of
                    None \<Rightarrow> (Some NilDereference, r2)
                  | Some p3 \<Rightarrow>
                      (case OnTick st (strategyState st) p3 data of
                         (orders, s') \<Rightarrow>
                           let r3 = r2\<lparr>Strategy := Some (st\<lparr>strategyState := s'\<rparr>)\<rparr>
                           in if length orders > 0 then processOrders r3 orders
                              else (None, r3)))))"
      using P M c unfolding step1_def by (simp add: processTick_def Let_def)
    show ?thesis
    proof (cases err)
      case (Some e)
      with unfold s1 k2 show ?thesis by simp
    next
      case None
      note E = None
      show ?thesis
      proof (cases "Strategy r2")
        case None
        with unfold s1 k2 E show ?thesis by simp
      next
        case (Some st)
        note S = Some
        show ?thesis
        proof (cases "Portfolio r2")
          case None
          with unfold s1 k2 E S show ?thesis by simp
        next
          case (Some p3)
          obtain orders s' where t: "OnTick st (strategyState st) p3 data = (orders, s')"
            by (cases "OnTick st (strategyState st) p3 data")
          show ?thesis
            using unfold s1 k2 E S Some t
              processOrders_keeps[of "r2\<lparr>Strategy := Some (st\<lparr>strategyState := s'\<rparr>)\<rparr>" orders]
            by (simp add: Let_def)
        qed
      qed
    qed
  qed
qed

lemma updateEquityCurve_accepted:
  assumes "updateEquityCurve r = (None, r')"
  shows "\<exists>p. Portfolio r = Some p \<and> r' = r\<lparr>EquityCurve := EquityCurve r @
                     [\<lparr>avTime = CurrentTime r,
                       avValue = Portfolio_Value p,
                       avCash = Cash p,
                       avOpenPositions = int (length (Positions p)),
                       avUnrealizedPnL = calculateUnrealizedPnL p\<rparr>]\<rparr>"
  using assms by (auto simp: updateEquityCurve_def split: option.splits)

lemma StartLoop_Cons_accepted:
  assumes "StartLoop r (row # rows) = (None, r')"
  shows "\<exists>data r1 r2. Get row = Some data
      \<and> processTick (r\<lparr>CurrentTime := Timestamp row\<rparr>) data = (None, r1)
      \<and> updateEquityCurve r1 = (None, r2)
      \<and> StartLoop r2 rows = (None, r')"
  using assms by (auto split: option.splits prod.splits)

lemma StartLoop_equity_curve:
  assumes "StartLoop r rows = (None, r')"
  shows "length (EquityCurve r') = length (EquityCurve r) + length rows
       \<and> take (length (EquityCurve r)) (EquityCurve r') = EquityCurve r
       \<and> (\<forall>i<length rows. \<exists>rp data rt p.
             StartLoop r (take i rows) = (None, rp)
           \<and> Get (rows ! i) = Some data
           \<and> processTick (rp\<lparr>CurrentTime := Timestamp (rows ! i)\<rparr>) data = (None, rt)
           \<and> Portfolio rt = Some p
           \<and> EquityCurve r' ! (length (EquityCurve r) + i) =
               \<lparr>avTime = Timestamp (rows ! i),
                avValue = Portfolio_Value p,
                avCash = Cash p,
                avOpenPositions = int (length (Positions p)),
                avUnrealizedPnL = calculateUnrealizedPnL p\<rparr>)"
  using assms
proof (induction rows arbitrary: r)
  case Nil
  then show ?case by simp
next
  case (Cons row rows)
  from StartLoop_Cons_accepted[OF Cons.prems] obtain data r1 r2 where
    g: "Get row = Some data" and
    t: "processTick (r\<lparr>CurrentTime := Timestamp row\<rparr>) data = (None, r1)" and
    u: "updateEquityCurve r1 = (None, r2)" and
    l: "StartLoop r2 rows = (None, r')"
    by blast
  from processTick_keeps[of "r\<lparr>CurrentTime := Timestamp row\<rparr>" data] t
  have k1: "EquityCurve r1 = EquityCurve r" "CurrentTime r1 = Timestamp row" by simp_all
  from updateEquityCurve_accepted[OF u] obtain p where
    p: "Portfolio r1 = Some p" and
    r2: "r2 = r1\<lparr>EquityCurve := EquityCurve r1 @
                     [\<lparr>avTime = CurrentTime r1,
                       avValue = Portfolio_Value p,
                       avCash = Cash p,
                       avOpenPositions = int (length (Positions p)),
                       avUnrealizedPnL = calculateUnrealizedPnL p\<rparr>]\<rparr>"
    by blast
  let ?snap = "\<lparr>avTime = Timestamp row, avValue = Portfolio_Value p, avCash = Cash p,
                avOpenPositions = int (length (Positions p)),
                avUnrealizedPnL = calculateUnrealizedPnL p\<rparr>"
  have c2: "EquityCurve r2 = EquityCurve r @ [?snap]" using r2 k1 by simp
  note ih = Cons.IH[OF l]
  from ih have len: "length (EquityCurve r') = length (EquityCurve r2) + length rows"
    and pre: "take (length (EquityCurve r2)) (EquityCurve r') = EquityCurve r2"
    and each: "\<forall>i<length rows. \<exists>rp data rt p.
             StartLoop r2 (take i rows) = (None, rp)
           \<and> Get (rows ! i) = Some data
           \<and> processTick (rp\<lparr>CurrentTime := Timestamp (rows ! i)\<rparr>) data = (None, rt)
           \<and> Portfolio rt = Some p
           \<and> EquityCurve r' ! (length (EquityCurve r2) + i) =
               \<lparr>avTime = Timestamp (rows ! i),
                avValue = Portfolio_Value p,
                avCash = Cash p,
                avOpenPositions = int (length (Positions p)),
                avUnrealizedPnL = calculateUnrealizedPnL p\<rparr>"
    by blast+
  have A: "length (EquityCurve r') = length (EquityCurve r) + length (row # rows)"
    using len c2 by simp
  have B: "take (length (EquityCurve r)) (EquityCurve r') = EquityCurve r"
  proof -
    have "take (length (EquityCurve r)) (EquityCurve r')
        = take (length (EquityCurve r)) (take (length (EquityCurve r2)) (EquityCurve r'))"
      using c2 by (simp add: min_def)
    also have "\<dots> = take (length (EquityCurve r)) (EquityCurve r2)" using pre by simp
    also have "\<dots> = EquityCurve r" using c2 by simp
    finally show ?thesis .
  qed
  have first: "EquityCurve r' ! length (EquityCurve r) = ?snap"
  proof -
    have "length (EquityCurve r) < length (EquityCurve r2)" using c2 by simp
    then have "EquityCurve r' ! length (EquityCurve r)
         = take (length (EquityCurve r2)) (EquityCurve r') ! length (EquityCurve r)"
      by simp
    also have "\<dots> = EquityCurve r2 ! length (EquityCurve r)" using pre by simp
    also have "\<dots> = ?snap" using c2 by simp
    finally show ?thesis .
  qed
  have C: "\<forall>i<length (row # rows). \<exists>rp data rt p.
             StartLoop r (take i (row # rows)) = (None, rp)
           \<and> Get ((row # rows) ! i) = Some data
           \<and> processTick (rp\<lparr>CurrentTime := Timestamp ((row # rows) ! i)\<rparr>) data = (None, rt)
           \<and> Portfolio rt = Some p
           \<and> EquityCurve r' ! (length (EquityCurve r) + i) =
               \<lparr>avTime = Timestamp ((row # rows) ! i),
                avValue = Portfolio_Value p,
                avCash = Cash p,
                avOpenPositions = int (length (Positions p)),
                avUnrealizedPnL = calculateUnrealizedPnL p\<rparr>"
  proof (intro allI impI)
    fix i assume i: "i < length (row # rows)"
    show "\<exists>rp data rt p.
             StartLoop r (take i (row # rows)) = (None, rp)
           \<and> Get ((row # rows) ! i) = Some data
           \<and> processTick (rp\<lparr>CurrentTime := Timestamp ((row # rows) ! i)\<rparr>) data = (None, rt)
           \<and> Portfolio rt = Some p
           \<and> EquityCurve r' ! (length (EquityCurve r) + i) =
               \<lparr>avTime = Timestamp ((row # rows) ! i),
                avValue = Portfolio_Value p,
                avCash = Cash p,
                avOpenPositions = int (length (Positions p)),
                avUnrealizedPnL = calculateUnrealizedPnL p\<rparr>"
    proof (cases i)
      case 0
      show ?thesis
        using 0 g t p first by (intro exI[of _ r] exI[of _ data] exI[of _ r1] exI[of _ p]) simp
    next
      case (Suc j)
      with i have j: "j < length rows" by simp
      from each j obtain rp d rt q where
        e1: "StartLoop r2 (take j rows) = (None, rp)" and
        e2: "Get (rows ! j) = Some d" and
        e3: "processTick (rp\<lparr>CurrentTime := Timestamp (rows ! j)\<rparr>) d = (None, rt)" and
        e4: "Portfolio rt = Some q" and
        e5: "EquityCurve r' ! (length (EquityCurve r2) + j) =
               \<lparr>avTime = Timestamp (rows ! j),
                avValue = Portfolio_Value q,
                avCash = Cash q,
                avOpenPositions = int (length (Positions q)),
                avUnrealizedPnL = calculateUnrealizedPnL q\<rparr>"
        by blast
      have s: "StartLoop r (take i (row # rows)) = (None, rp)"
        using Suc g t u e1 by simp
      have idx: "length (EquityCurve r) + i = length (EquityCurve r2) + j" using Suc c2 by simp
      show ?thesis
        using s e2 e3 e4 e5 Suc unfolding idx
        by (intro exI[of _ rp] exI[of _ d] exI[of _ rt] exI[of _ q]) simp
    qed
  qed
  from A B C show ?case by blast
qed

text \<open>
  Claim C9: when \<^verbatim>\<open>Start\<close> returns without error on a table of \<open>n\<close> rows, the equity curve
  has grown by exactly \<open>n\<close> snapshots (so it has length \<open>n\<close> for a curve that was empty, as
  \<^verbatim>\<open>New\<close> leaves it); the snapshots it had before are its first elements, unchanged; and the
  \<open>i\<close>-th new snapshot carries the timestamp of the \<open>i\<close>-th row and the value, cash,
  number of open positions and unrealized PnL of the portfolio as \<^verbatim>\<open>processTick\<close> left it
  on that row, that is after the mark update, the exits forced by the risk manager and the
  strategy's orders of that tick, in the state that the loop had reached on the rows
  before.
\<close>

theorem equity_curve_append:
  assumes "Start r = (None, r')" and "Data r = Some rows"
  shows "length (EquityCurve r') = length (EquityCurve r) + length rows
       \<and> take (length (EquityCurve r)) (EquityCurve r') = EquityCurve r
       \<and> (\<forall>i<length rows. \<exists>rp data rt p.
             StartLoop r (take i rows) = (None, rp)
           \<and> Get (rows ! i) = Some data
           \<and> processTick (rp\<lparr>CurrentTime := Timestamp (rows ! i)\<rparr>) data = (None, rt)
           \<and> Portfolio rt = Some p
           \<and> EquityCurve r' ! (length (EquityCurve r) + i) =
               \<lparr>avTime = Timestamp (rows ! i),
                avValue = Portfolio_Value p,
                avCash = Cash p,
                avOpenPositions = int (length (Positions p)),
                avUnrealizedPnL = calculateUnrealizedPnL p\<rparr>)"
proof -
  have "StartLoop r rows = (None, r')"
    using assms by (auto simp: Start_def split: option.splits)
  then show ?thesis by (rule StartLoop_equity_curve)
qed

theorem equity_curve_append_witness:
  "Start c9_runner = (None, snd (Start c9_runner)) \<and> Data c9_runner = Some c9_rows
   \<and> EquityCurve c9_runner = []
   \<and> length (EquityCurve (snd (Start c9_runner))) = 2
   \<and> map avTime (EquityCurve (snd (Start c9_runner))) = [1, 2]
   \<and> map avValue (EquityCurve (snd (Start c9_runner))) = [9000, 9940]"
proof -
  have e: "fst (Start c9_runner) = None \<and> map avValue (EquityCurve (snd (Start c9_runner))) = [9000, 9940]
     \<and> map avTime (EquityCurve (snd (Start c9_runner))) = [1, 2]"
  by (simp add: Start_def validateComponents_def c9_runner_def Runner_New_def WithPortfolio_def WithRiskManager_def
     WithData_def c9_rows_def c9_candle_def c9_risk_def c9_strategy_def processTick_def processOrder_def
     updateEquityCurve_def getCurrentPrices_def UpdatePositions_def updatePosition_def UpdatePrice_def
     CheckPositionExits_def checkExitConditions_def checkLongExitConditions_def Positions_def Cash_def
     calculateUnrealizedPnL_def Portfolio_Value_def ValidateOrder_def ProcessOrder_def validateOrder_def
     handleEntryOrder_def handleExitOrder_def NewPosition_def AddOrder_def Portfolio_New_def Fill_def NewOrder_def
     float64_def Let_def)
  then have h1: "Start c9_runner = (None, snd (Start c9_runner))"
    by (metis prod.collapse)
  have h2: "Data c9_runner = Some c9_rows" and c0: "EquityCurve c9_runner = []"
    by (simp_all add: c9_runner_def Runner_New_def WithPortfolio_def WithRiskManager_def WithData_def)
  have n: "length c9_rows = 2" by (simp add: c9_rows_def)
  from equity_curve_append[OF h1 h2] c0 n
  have "length (EquityCurve (snd (Start c9_runner))) = 2" by simp
  with h1 h2 c0 e show ?thesis by blast
qed

end
